theory Spec2Isabelle
  imports Main "HOL-Library.AList"
begin

section \<open>GraphQL schema to TypeScript generator: the aggregation and emission engine\<close>

text \<open>
  The development embeds \<^verbatim>\<open>src/src/main.go\<close>. That file holds two concatenated
  versions of the program; the embedding follows the second, current one (lines 309 to 723),
  which contains the request-interface resolver.

  Go strings are byte sequences and so are HOL strings (\<^typ>\<open>char list\<close>). A Go
  \<^verbatim>\<open>map\<close> is an association list with distinct keys: lookup is \<^const>\<open>map_of\<close>,
  a store to a new key appends, a store to a present key replaces in place. Go leaves the
  order of \<^verbatim>\<open>range\<close> over a map unspecified; the order of the list stands for the
  order a run happens to use. What is proved about the keys collected (which names, and
  that each occurs once) does not mention that order.

  A function that writes to a \<^verbatim>\<open>strings.Builder\<close> or to a map it was handed takes the
  old value and returns the new one. A loop is a recursive function named after the
  function it stands in.
\<close>

subsection \<open>Failures\<close>

text \<open>
  Every way the program stops early is a value: the \<^verbatim>\<open>error\<close> results it returns
  itself, and the runtime panic of a slice expression whose bounds are out of range.
\<close>

datatype error =
    CouldNotReadFile
  | ErrorParsingSchema
  | ConflictingType string
  | ConflictingEnum string
  | CouldNotCreateFile
  | SliceBoundsOutOfRange
  | IndexOutOfRange

subsection \<open>The Go string primitives the program uses\<close>

definition HasPrefix :: "string \<Rightarrow> string \<Rightarrow> bool" where
  "HasPrefix s pre = (length pre \<le> length s \<and> take (length pre) s = pre)"

definition HasSuffix :: "string \<Rightarrow> string \<Rightarrow> bool" where
  "HasSuffix s suf = (length suf \<le> length s \<and> drop (length s - length suf) s = suf)"

definition TrimSuffix :: "string \<Rightarrow> string \<Rightarrow> string" where
  "TrimSuffix s suf = (if HasSuffix s suf then take (length s - length suf) s else s)"

text \<open>
  The slice expression \<^verbatim>\<open>s[lo:hi]\<close> on Go's signed \<^verbatim>\<open>int\<close> indices. It panics
  unless \<^verbatim>\<open>0 <= lo <= hi <= len(s)\<close>.
\<close>

definition slice :: "string \<Rightarrow> int \<Rightarrow> int \<Rightarrow> error + string" where
  "slice s lo hi =
     (if 0 \<le> lo \<and> lo \<le> hi \<and> hi \<le> int (length s)
      then Inr (take (nat (hi - lo)) (drop (nat lo) s))
      else Inl SliceBoundsOutOfRange)"

subsection \<open>Facts about the string primitives\<close>

lemma HasSuffix_bang: "HasSuffix s ''!'' \<longleftrightarrow> s \<noteq> [] \<and> last s = CHR ''!''"
proof (cases s rule: rev_cases)
  case Nil
  then show ?thesis by (simp add: HasSuffix_def)
next
  case (snoc ys y)
  then show ?thesis by (simp add: HasSuffix_def)
qed

lemma HasSuffix_snoc [simp]: "HasSuffix (s @ [c]) [d] \<longleftrightarrow> c = d"
  by (simp add: HasSuffix_def)

lemma HasPrefix_Cons [simp]: "HasPrefix (c # s) [d] \<longleftrightarrow> c = d"
  by (simp add: HasPrefix_def)

lemma TrimSuffix_snoc [simp]:
  "TrimSuffix (s @ [c]) [d] = (if c = d then s else s @ [c])"
  by (simp add: TrimSuffix_def)

lemma TrimSuffix_id: "\<not> HasSuffix s suf \<Longrightarrow> TrimSuffix s suf = s"
  by (simp add: TrimSuffix_def)

text \<open>
  A string that starts with an opening and ends with a closing bracket has at least two
  bytes, so the slice \<^verbatim>\<open>cleanType[1 : len(cleanType)-1]\<close> behind that test is in range.
\<close>

lemma bracketed_length:
  assumes "HasPrefix c ''[''" and "HasSuffix c '']''"
  shows "2 \<le> length c"
proof (cases c)
  case Nil
  with assms show ?thesis by (simp add: HasPrefix_def)
next
  case (Cons x xs)
  show ?thesis
  proof (cases xs)
    case Nil
    with Cons assms show ?thesis by (auto simp: HasPrefix_def HasSuffix_def)
  next
    case (Cons y ys)
    with \<open>c = x # xs\<close> show ?thesis by simp
  qed
qed

lemma slice_bracketed:
  assumes "HasPrefix c ''[''" and "HasSuffix c '']''"
  shows "slice c 1 (int (length c) - 1) = Inr (butlast (tl c))"
proof -
  from assms have "2 \<le> length c" by (rule bracketed_length)
  then show ?thesis
    by (simp add: slice_def butlast_conv_take drop_Suc nat_diff_distrib' numeral_2_eq_2)
qed

lemma length_TrimSuffix_le: "length (TrimSuffix s suf) \<le> length s"
  by (simp add: TrimSuffix_def)

lemma slice_Inr_length:
  "slice s lo hi = Inr t \<Longrightarrow> length t = nat (hi - lo)"
  by (auto simp: slice_def split: if_splits)

subsection \<open>Type reference translator\<close>

text \<open>The \<^verbatim>\<open>switch\<close> at the end of \<^verbatim>\<open>convertGraphqlTypeToTs\<close>.\<close>

definition scalarToTs :: "string \<Rightarrow> string" where
  "scalarToTs cleanType =
     (if cleanType = ''String'' then ''string''
      else if cleanType = ''Int'' then ''number''
      else if cleanType = ''Float'' then ''number''
      else if cleanType = ''Boolean'' then ''boolean''
      else if cleanType = ''ID'' then ''string''
      else if cleanType = ''DateTime'' then ''string''
      else if cleanType = ''JSONObject'' then ''Record<string, unknown>''
      else cleanType)"

function convertGraphqlTypeToTs :: "string \<Rightarrow> error + string" where
  "convertGraphqlTypeToTs graphqlType =
     (let cleanType = TrimSuffix graphqlType ''!'' in
      if HasPrefix cleanType ''['' \<and> HasSuffix cleanType '']'' then
        (case slice cleanType 1 (int (length cleanType) - 1) of
           Inl e \<Rightarrow> Inl e
         | Inr innerType \<Rightarrow>
             (case convertGraphqlTypeToTs innerType of
                Inl e \<Rightarrow> Inl e
              | Inr inner \<Rightarrow> Inr (''Array<'' @ inner @ ''>'')))
      else Inr (scalarToTs cleanType))"
  by pat_completeness auto

lemma innerType_shorter:
  assumes "slice (TrimSuffix graphqlType ''!'') 1
             (int (length (TrimSuffix graphqlType ''!'')) - 1) = Inr innerType"
  shows "length innerType < length graphqlType"
proof -
  let ?c = "TrimSuffix graphqlType ''!''"
  from assms have "length innerType = nat (int (length ?c) - 1 - 1)"
    by (rule slice_Inr_length)
  moreover from assms have "1 \<le> int (length ?c) - 1"
    by (auto simp: slice_def split: if_splits)
  moreover have "length ?c \<le> length graphqlType"
    by (rule length_TrimSuffix_le)
  ultimately show ?thesis by simp
qed

text \<open>
  Every string lies in the accessible part of the call relation of
  \<^const>\<open>convertGraphqlTypeToTs\<close>: each recursive call is on a strictly shorter string.
\<close>

lemma convertGraphqlTypeToTs_dom_all: "convertGraphqlTypeToTs_dom graphqlType"
proof -
  have "All convertGraphqlTypeToTs_dom"
    by (relation "measure length") (auto intro: innerType_shorter)
  then show ?thesis by blast
qed

termination convertGraphqlTypeToTs
  by (relation "measure length") (auto intro: innerType_shorter)

declare convertGraphqlTypeToTs.simps [simp del]


subsection \<open>Data model\<close>

text \<open>
  What the program reads of the parser's \<^verbatim>\<open>ast.Definition\<close> and
  \<^verbatim>\<open>ast.FieldDefinition\<close>. Of a field's type only \<^verbatim>\<open>Type.String()\<close> is ever used,
  so \<open>fieldType\<close> is that string; of an enum value only its name. The fields
  \<^verbatim>\<open>Name\<close>, \<^verbatim>\<open>Kind\<close>, \<^verbatim>\<open>Fields\<close>, \<^verbatim>\<open>EnumValues\<close> and \<^verbatim>\<open>Definition\<close> carry a
  prefix that tells the records apart.
\<close>

datatype DefinitionKind = Scalar | Object | Interface | Union | Enum | InputObject

record FieldDefinition =
  fieldName :: string
  fieldType :: string

record Definition =
  defKind :: DefinitionKind
  defName :: string
  defFields :: "FieldDefinition list"
  defEnumValues :: "string list"

record TypeInfo =
  infoName :: string
  infoDefinition :: Definition

text \<open>The package-level variables.\<close>

record globals =
  types :: "(string \<times> TypeInfo) list"
  enums :: "(string \<times> Definition) list"
  queries :: "(string \<times> FieldDefinition) list"
  mutations :: "(string \<times> FieldDefinition) list"
  skipChecks :: bool

definition emptyGlobals :: "bool \<Rightarrow> globals" where
  "emptyGlobals skip =
     \<lparr>types = [], enums = [], queries = [], mutations = [], skipChecks = skip\<rparr>"

text \<open>
  A \<^verbatim>\<open>map[string]bool\<close> in which only \<^verbatim>\<open>true\<close> is ever stored is the list of its
  keys; \<open>m[k] = true\<close> is \<open>setTrue k m\<close> and reading \<open>m[k]\<close> is \<open>k \<in> set m\<close>.
\<close>

definition setTrue :: "string \<Rightarrow> string list \<Rightarrow> string list" where
  "setTrue k m = (if k \<in> set m then m else m @ [k])"

subsection \<open>Schema registry\<close>

text \<open>
  The loops of \<^verbatim>\<open>compareDefinitions\<close> and \<^verbatim>\<open>compareEnums\<close> run over the indices of
  the first argument and index the second with them; an index out of range is a panic.
\<close>

function compareDefinitions_loop ::
  "nat \<Rightarrow> FieldDefinition list \<Rightarrow> FieldDefinition list \<Rightarrow> error + bool" where
  "compareDefinitions_loop i aFields bFields =
     (if i < length aFields then
        (if length bFields \<le> i then Inl IndexOutOfRange
         else if fieldName (aFields ! i) \<noteq> fieldName (bFields ! i)
                 \<or> fieldType (aFields ! i) \<noteq> fieldType (bFields ! i)
         then Inr False
         else compareDefinitions_loop (i + 1) aFields bFields)
      else Inr True)"
  by pat_completeness auto
termination
  by (relation "measure (\<lambda>(i, aFields, bFields). length aFields - i)") auto

declare compareDefinitions_loop.simps [simp del]

definition compareDefinitions :: "Definition \<Rightarrow> Definition \<Rightarrow> error + bool" where
  "compareDefinitions a b =
     (if length (defFields a) \<noteq> length (defFields b) then Inr False
      else compareDefinitions_loop 0 (defFields a) (defFields b))"

function compareEnums_loop :: "nat \<Rightarrow> string list \<Rightarrow> string list \<Rightarrow> error + bool" where
  "compareEnums_loop i aValues bValues =
     (if i < length aValues then
        (if length bValues \<le> i then Inl IndexOutOfRange
         else if aValues ! i \<noteq> bValues ! i then Inr False
         else compareEnums_loop (i + 1) aValues bValues)
      else Inr True)"
  by pat_completeness auto
termination
  by (relation "measure (\<lambda>(i, aValues, bValues). length aValues - i)") auto

declare compareEnums_loop.simps [simp del]

definition compareEnums :: "Definition \<Rightarrow> Definition \<Rightarrow> error + bool" where
  "compareEnums a b =
     (if length (defEnumValues a) \<noteq> length (defEnumValues b) then Inr False
      else compareEnums_loop 0 (defEnumValues a) (defEnumValues b))"

text \<open>
  \<^verbatim>\<open>!skipChecks && !compareDefinitions(...)\<close> evaluates the comparison only when
  \<^verbatim>\<open>skipChecks\<close> is off.
\<close>

definition addTypeOrInterface :: "globals \<Rightarrow> Definition \<Rightarrow> error + globals" where
  "addTypeOrInterface g def =
     (case map_of (types g) (defName def) of
        Some existing \<Rightarrow>
          (if \<not> skipChecks g then
             (case compareDefinitions (infoDefinition existing) def of
                Inl e \<Rightarrow> Inl e
              | Inr same \<Rightarrow>
                  if \<not> same then Inl (ConflictingType (defName def)) else Inr g)
           else Inr g)
      | None \<Rightarrow>
          Inr (g\<lparr>types := types g @
                  [(defName def, \<lparr>infoName = defName def, infoDefinition = def\<rparr>)]\<rparr>))"

definition addEnum :: "globals \<Rightarrow> Definition \<Rightarrow> error + globals" where
  "addEnum g enum =
     (case map_of (enums g) (defName enum) of
        Some existingEnum \<Rightarrow>
          (if \<not> skipChecks g then
             (case compareEnums existingEnum enum of
                Inl e \<Rightarrow> Inl e
              | Inr same \<Rightarrow>
                  if \<not> same then Inl (ConflictingEnum (defName enum)) else Inr g)
           else Inr g)
      | None \<Rightarrow> Inr (g\<lparr>enums := enums g @ [(defName enum, enum)]\<rparr>))"

subsection \<open>Aggregator\<close>

text \<open>
  Reading and parsing a file are outside the program; what they hand to
  \<^verbatim>\<open>processSchemaFile\<close> is one of three things. \<open>Schema ts\<close> carries the entries of
  \<^verbatim>\<open>schema.Types\<close> in the order the \<^verbatim>\<open>range\<close> visits them.
\<close>

datatype schemaFile = Unreadable | Unparsable | Schema "Definition list"

text \<open>
  The two loops \<^verbatim>\<open>queries[field.Name] = field\<close> and \<^verbatim>\<open>mutations[field.Name] = field\<close>
  have the same body on different maps.
\<close>

fun storeFields ::
  "FieldDefinition list \<Rightarrow> (string \<times> FieldDefinition) list \<Rightarrow> (string \<times> FieldDefinition) list"
  where
  "storeFields [] m = m"
| "storeFields (field # rest) m = storeFields rest (AList.update (fieldName field) field m)"

text \<open>The body of the loop over \<^verbatim>\<open>schema.Types\<close>.\<close>

definition processType :: "globals \<Rightarrow> Definition \<Rightarrow> error + globals" where
  "processType g typ =
     (case (if defKind typ = Object \<or> defKind typ = Interface then
              (if defName typ = ''Query'' then
                 Inr (g\<lparr>queries := storeFields (defFields typ) (queries g)\<rparr>)
               else if defName typ = ''Mutation'' then
                 Inr (g\<lparr>mutations := storeFields (defFields typ) (mutations g)\<rparr>)
               else addTypeOrInterface g typ)
            else Inr g) of
        Inl e \<Rightarrow> Inl e
      | Inr g' \<Rightarrow> if defKind typ = Enum then addEnum g' typ else Inr g')"

fun processTypes :: "globals \<Rightarrow> Definition list \<Rightarrow> error + globals" where
  "processTypes g [] = Inr g"
| "processTypes g (typ # rest) =
     (case processType g typ of Inl e \<Rightarrow> Inl e | Inr g' \<Rightarrow> processTypes g' rest)"

definition processSchemaFile :: "globals \<Rightarrow> schemaFile \<Rightarrow> error + globals" where
  "processSchemaFile g file =
     (case file of
        Unreadable \<Rightarrow> Inl CouldNotReadFile
      | Unparsable \<Rightarrow> Inl ErrorParsingSchema
      | Schema ts \<Rightarrow> processTypes g ts)"

text \<open>
  The walk of \<^verbatim>\<open>main\<close> over the schema files, in the order it finds them: the first
  error ends it.
\<close>

fun processSchemaFiles :: "globals \<Rightarrow> schemaFile list \<Rightarrow> error + globals" where
  "processSchemaFiles g [] = Inr g"
| "processSchemaFiles g (file # rest) =
     (case processSchemaFile g file of
        Inl e \<Rightarrow> Inl e
      | Inr g' \<Rightarrow> processSchemaFiles g' rest)"

subsection \<open>Request-shape resolver\<close>

definition isObjectType :: "(string \<times> TypeInfo) list \<Rightarrow> string \<Rightarrow> bool" where
  "isObjectType ts typeName = (case map_of ts typeName of Some _ \<Rightarrow> True | None \<Rightarrow> False)"

definition extractCleanType :: "string \<Rightarrow> error + string" where
  "extractCleanType typeStr =
     (let cleanType = TrimSuffix typeStr ''!'' in
      if HasPrefix cleanType ''['' \<and> HasSuffix cleanType '']'' then
        (case slice cleanType 1 (int (length cleanType) - 1) of
           Inl e \<Rightarrow> Inl e
         | Inr inner \<Rightarrow> Inr (TrimSuffix inner ''!''))
      else Inr cleanType)"

definition isObjectOrArrayOfObjects :: "(string \<times> TypeInfo) list \<Rightarrow> string \<Rightarrow> error + bool" where
  "isObjectOrArrayOfObjects ts fieldTypeStr =
     (case extractCleanType fieldTypeStr of
        Inl e \<Rightarrow> Inl e
      | Inr cleanType \<Rightarrow>
          Inr (case map_of ts cleanType of Some _ \<Rightarrow> True | None \<Rightarrow> False))"

text \<open>
  \<^verbatim>\<open>bufferRequestInterface\<close> mutates the two maps it is given; here it takes their
  values (\<open>processedTypes\<close>, \<open>deferredInterfaces\<close>) and returns the new ones.
  \<open>bufferFields\<close> is its loop over the fields of the type found. The same loop,
  with the same body, stands in \<^verbatim>\<open>generateTypescriptFile\<close>.
\<close>

function bufferRequestInterface ::
    "(string \<times> TypeInfo) list \<Rightarrow> string \<Rightarrow> string list \<times> string list
       \<Rightarrow> error + (string list \<times> string list)"
  and bufferFields ::
    "(string \<times> TypeInfo) list \<Rightarrow> FieldDefinition list \<Rightarrow> string list \<times> string list
       \<Rightarrow> error + (string list \<times> string list)"
  where
  "bufferRequestInterface ts returnType (processedTypes, deferredInterfaces) =
     (case extractCleanType returnType of
        Inl e \<Rightarrow> Inl e
      | Inr cleanType \<Rightarrow>
          if cleanType \<in> set processedTypes then Inr (processedTypes, deferredInterfaces)
          else
            (case map_of ts cleanType of
               None \<Rightarrow> Inr (setTrue cleanType processedTypes, deferredInterfaces)
             | Some typeInfo \<Rightarrow>
                 bufferFields ts (defFields (infoDefinition typeInfo))
                   (setTrue cleanType processedTypes, setTrue cleanType deferredInterfaces)))"
| "bufferFields ts [] st = Inr st"
| "bufferFields ts (field # rest) st =
     (case isObjectOrArrayOfObjects ts (fieldType field) of
        Inl e \<Rightarrow> Inl e
      | Inr isObj \<Rightarrow>
          if isObj then
            (case bufferRequestInterface ts (fieldType field) st of
               Inl e \<Rightarrow> Inl e
             | Inr st' \<Rightarrow> bufferFields ts rest st')
          else bufferFields ts rest st)"
  by pat_completeness auto

text \<open>
  Termination. A call of \<^const>\<open>bufferRequestInterface\<close> that goes on to the fields of a
  type has just marked a registered name that was not marked before, so the number of
  registered names not yet in \<open>processedTypes\<close> drops; the loop keeps that number from
  growing, because the marks are never removed, and shortens its list.
\<close>

lemma set_setTrue [simp]: "set (setTrue k m) = insert k (set m)"
  by (auto simp: setTrue_def)

lemma processedTypes_grow_partial:
  "bufferRequestInterface_bufferFields_dom (Inl (ts, returnType, st)) \<Longrightarrow>
     bufferRequestInterface ts returnType st = Inr st' \<Longrightarrow> set (fst st) \<subseteq> set (fst st')"
  "bufferRequestInterface_bufferFields_dom (Inr (ts, fs, st)) \<Longrightarrow>
     bufferFields ts fs st = Inr st' \<Longrightarrow> set (fst st) \<subseteq> set (fst st')"
proof (induct ts returnType st and ts fs st arbitrary: st' and st'
    rule: bufferRequestInterface_bufferFields.pinduct)
  case (1 ts returnType processedTypes deferredInterfaces)
  from "1.prems" "1.hyps"(1) show ?case
    by (auto simp: bufferRequestInterface.psimps split: sum.splits if_splits option.splits
        dest!: "1.hyps"(2))
next
  case (2 ts st)
  then show ?case by (simp add: bufferFields.psimps)
next
  case (3 ts field rest st)
  from "3.prems" "3.hyps"(1)
  have eq: "(case isObjectOrArrayOfObjects ts (fieldType field) of
               Inl e \<Rightarrow> Inl e
             | Inr isObj \<Rightarrow>
                 if isObj then
                   (case bufferRequestInterface ts (fieldType field) st of
                      Inl e \<Rightarrow> Inl e
                    | Inr st1 \<Rightarrow> bufferFields ts rest st1)
                 else bufferFields ts rest st) = Inr st'"
    by (simp add: bufferFields.psimps)
  then obtain isObj where o: "isObjectOrArrayOfObjects ts (fieldType field) = Inr isObj"
    by (cases "isObjectOrArrayOfObjects ts (fieldType field)") auto
  show ?case
  proof (cases isObj)
    case True
    with eq o obtain st1 where
      r: "bufferRequestInterface ts (fieldType field) st = Inr st1"
      and f: "bufferFields ts rest st1 = Inr st'"
      by (cases "bufferRequestInterface ts (fieldType field) st") auto
    from "3.hyps"(2) [OF o True r] "3.hyps"(3) [OF o True r f]
    show ?thesis by blast
  next
    case False
    with eq o have "bufferFields ts rest st = Inr st'" by simp
    from "3.hyps"(4) [OF o False this] show ?thesis .
  qed
qed

definition unprocessed :: "(string \<times> TypeInfo) list \<Rightarrow> string list \<Rightarrow> nat" where
  "unprocessed ts processedTypes = card (fst ` set ts - set processedTypes)"

definition callMeasure ::
  "(string \<times> TypeInfo) list \<times> string \<times> string list \<times> string list
     + (string \<times> TypeInfo) list \<times> FieldDefinition list \<times> string list \<times> string list
   \<Rightarrow> nat \<times> nat" where
  "callMeasure x =
     (case x of
        Inl (ts, returnType, (p, d)) \<Rightarrow> (unprocessed ts p, 0)
      | Inr (ts, fs, (p, d)) \<Rightarrow> (unprocessed ts p, Suc (length fs)))"

lemma unprocessed_mono:
  "set p \<subseteq> set p' \<Longrightarrow> unprocessed ts p' \<le> unprocessed ts p"
  unfolding unprocessed_def by (intro card_mono) auto

lemma unprocessed_setTrue:
  assumes "map_of ts c = Some ti" and "c \<notin> set p"
  shows "unprocessed ts (setTrue c p) < unprocessed ts p"
proof -
  from assms(1) have "c \<in> fst ` set ts" by (force dest: map_of_SomeD)
  with assms(2) have "fst ` set ts - set (setTrue c p) \<subset> fst ` set ts - set p"
    by auto
  then show ?thesis
    unfolding unprocessed_def by (intro psubset_card_mono) auto
qed

text \<open>
  Every argument of \<^const>\<open>bufferRequestInterface\<close> and of its loop lies in the accessible
  part of their call relation: no chain of recursive calls is infinite, whatever the
  registry, cyclic or not.
\<close>

lemma bufferRequestInterface_bufferFields_dom_all:
  "All bufferRequestInterface_bufferFields_dom"
proof (relation "inv_image (less_than <*lex*> less_than) callMeasure", goal_cases)
  case 1
  show ?case by (intro wf_inv_image wf_lex_prod wf_less_than)
next
  case (2 ts returnType processedTypes deferredInterfaces b x2)
  then show ?case
    by (simp add: callMeasure_def unprocessed_setTrue)
next
  case (3 ts field rest st b)
  then show ?case by (cases st) (simp add: callMeasure_def)
next
  case (4 ts field rest st b ba)
  from processedTypes_grow_partial(1) [OF 4(4) 4(3)]
  have "unprocessed ts (fst ba) \<le> unprocessed ts (fst st)" by (rule unprocessed_mono)
  then show ?case by (cases st; cases ba) (auto simp add: callMeasure_def)
next
  case (5 ts field rest st b)
  then show ?case by (cases st) (simp add: callMeasure_def)
qed

termination bufferRequestInterface
  using bufferRequestInterface_bufferFields_dom_all by blast

declare bufferRequestInterface.simps [simp del]

text \<open>
  \<^verbatim>\<open>determineFieldType\<close> works on what \<^const>\<open>extractCleanType\<close> leaves: one bracket
  level is already gone when it tests for a list.
\<close>

definition determineFieldType :: "(string \<times> TypeInfo) list \<Rightarrow> string \<Rightarrow> error + string" where
  "determineFieldType ts fieldTypeStr =
     (case extractCleanType fieldTypeStr of
        Inl e \<Rightarrow> Inl e
      | Inr cleanType \<Rightarrow>
          if HasPrefix cleanType ''['' \<and> HasSuffix cleanType '']'' then
            (case slice cleanType 1 (int (length cleanType) - 1) of
               Inl e \<Rightarrow> Inl e
             | Inr inner \<Rightarrow>
                 (let innerType = TrimSuffix inner ''!'' in
                  if isObjectType ts innerType
                  then Inr (''Array<'' @ innerType @ ''Request>'')
                  else Inr ''Array<boolean | number>''))
          else if isObjectType ts cleanType then Inr (cleanType @ ''Request'')
          else Inr ''boolean | number'')"

text \<open>
  The loop of \<^verbatim>\<open>bufferMissingRequestInterfaces\<close> over the keys of \<^verbatim>\<open>types\<close>. Each
  call of \<^const>\<open>bufferRequestInterface\<close> in it gets a fresh, empty \<open>processedTypes\<close>.
\<close>

fun bufferMissingRequestInterfaces_loop ::
  "(string \<times> TypeInfo) list \<Rightarrow> string list \<Rightarrow> string list \<Rightarrow> error + string list" where
  "bufferMissingRequestInterfaces_loop ts [] deferredInterfaces = Inr deferredInterfaces"
| "bufferMissingRequestInterfaces_loop ts (typeName # rest) deferredInterfaces =
     (case isObjectOrArrayOfObjects ts typeName of
        Inl e \<Rightarrow> Inl e
      | Inr isObj \<Rightarrow>
          if isObj \<and> typeName \<notin> set deferredInterfaces then
            (case bufferRequestInterface ts typeName ([], setTrue typeName deferredInterfaces) of
               Inl e \<Rightarrow> Inl e
             | Inr (processedTypes, deferredInterfaces') \<Rightarrow>
                 bufferMissingRequestInterfaces_loop ts rest deferredInterfaces')
          else bufferMissingRequestInterfaces_loop ts rest deferredInterfaces)"

definition bufferMissingRequestInterfaces ::
  "(string \<times> TypeInfo) list \<Rightarrow> string list \<Rightarrow> error + string list" where
  "bufferMissingRequestInterfaces ts deferredInterfaces =
     bufferMissingRequestInterfaces_loop ts (map fst ts) deferredInterfaces"

subsection \<open>Emitter\<close>

text \<open>
  A \<^verbatim>\<open>strings.Builder\<close> is the string written so far; \<^verbatim>\<open>WriteString\<close> appends.
\<close>

definition writeFileHeader :: "string \<Rightarrow> string" where
  "writeFileHeader buffer =
     (buffer @
        ''/*\<newline>'' @
        '' * -------------------------------------------------------\<newline>'' @
        '' * THIS FILE WAS AUTOMATICALLY GENERATED (DO NOT MODIFY)\<newline>'' @
        '' * -------------------------------------------------------\<newline>'' @
        '' */\<newline>'' @
        ''\<newline>'' @
        ''/* tslint:disable */\<newline>'' @
        ''/* eslint-disable */\<newline>'' @
        ''\<newline>'') @
     ''type Nullable<T> = T | null;\<newline>\<newline>''"

fun generateEnums_values :: "string \<Rightarrow> string list \<Rightarrow> string" where
  "generateEnums_values buffer [] = buffer"
| "generateEnums_values buffer (valueName # rest) =
     generateEnums_values
       (buffer @ ''  '' @ valueName @ '' = '' @ [CHR 0x27] @ valueName @ [CHR 0x27] @
          '',\<newline>'')
       rest"

fun generateEnums :: "string \<Rightarrow> (string \<times> Definition) list \<Rightarrow> string" where
  "generateEnums buffer [] = buffer"
| "generateEnums buffer ((key, enum) # rest) =
     generateEnums
       (generateEnums_values (buffer @ ''export enum '' @ defName enum @ '' {\<newline>'')
          (defEnumValues enum) @ ''}\<newline>\<newline>'')
       rest"

text \<open>
  The statements that render one field of a data interface. They stand, word for word,
  in the loops of \<^verbatim>\<open>generateTypeInterface\<close> and of \<^verbatim>\<open>generateRootInterfaces\<close>.
\<close>

definition writeField :: "string \<Rightarrow> FieldDefinition \<Rightarrow> error + string" where
  "writeField buffer field =
     (let isOptional = \<not> HasSuffix (fieldType field) ''!'' in
      case convertGraphqlTypeToTs (fieldType field) of
        Inl e \<Rightarrow> Inl e
      | Inr fieldTypeTs \<Rightarrow>
          if isOptional then
            Inr (buffer @ ''  '' @ fieldName field @ ''?: Nullable<'' @ fieldTypeTs @
                   ''>;\<newline>'')
          else
            Inr (buffer @ ''  '' @ fieldName field @ '': '' @ fieldTypeTs @ '';\<newline>''))"

fun generateTypeInterface_fields :: "string \<Rightarrow> FieldDefinition list \<Rightarrow> error + string" where
  "generateTypeInterface_fields buffer [] = Inr buffer"
| "generateTypeInterface_fields buffer (field # rest) =
     (case writeField buffer field of
        Inl e \<Rightarrow> Inl e
      | Inr buffer' \<Rightarrow> generateTypeInterface_fields buffer' rest)"

definition generateTypeInterface :: "string \<Rightarrow> TypeInfo \<Rightarrow> error + string" where
  "generateTypeInterface buffer typeInfo =
     (let buffer1 =
        (if defKind (infoDefinition typeInfo) = Object then
           buffer @ ''export interface '' @ infoName typeInfo @ '' {\<newline>''
         else if defKind (infoDefinition typeInfo) = Interface then
           buffer @ ''export interface '' @ infoName typeInfo @ '' {\<newline>''
         else buffer)
      in case generateTypeInterface_fields buffer1 (defFields (infoDefinition typeInfo)) of
           Inl e \<Rightarrow> Inl e
         | Inr buffer2 \<Rightarrow> Inr (buffer2 @ ''}\<newline>\<newline>''))"

text \<open>
  The state of \<^verbatim>\<open>generateRootInterfaces\<close> is the buffer and the two maps, the latter
  as the pair \<open>(processedTypes, deferredInterfaces)\<close>.
\<close>

fun generateRootInterfaces_fields ::
  "(string \<times> TypeInfo) list \<Rightarrow> string \<Rightarrow> (string \<times> FieldDefinition) list
     \<Rightarrow> string list \<times> string list \<Rightarrow> error + (string \<times> string list \<times> string list)" where
  "generateRootInterfaces_fields ts buffer [] st = Inr (buffer, st)"
| "generateRootInterfaces_fields ts buffer ((key, field) # rest) st =
     (case writeField buffer field of
        Inl e \<Rightarrow> Inl e
      | Inr buffer' \<Rightarrow>
          (case bufferRequestInterface ts (fieldType field) st of
             Inl e \<Rightarrow> Inl e
           | Inr st' \<Rightarrow> generateRootInterfaces_fields ts buffer' rest st'))"

definition generateRootInterfaces ::
  "(string \<times> TypeInfo) list \<Rightarrow> string \<Rightarrow> (string \<times> FieldDefinition) list \<Rightarrow> string
     \<Rightarrow> string list \<times> string list \<Rightarrow> error + (string \<times> string list \<times> string list)" where
  "generateRootInterfaces ts buffer rootFields rootName st =
     (if length rootFields > 0 then
        (case generateRootInterfaces_fields ts
                (buffer @ ''export interface '' @ rootName @ '' {\<newline>'') rootFields st of
           Inl e \<Rightarrow> Inl e
         | Inr (buffer', st') \<Rightarrow> Inr (buffer' @ ''}\<newline>\<newline>'', st'))
      else Inr (buffer, st))"

fun generateRequestInterfaces_fields ::
  "(string \<times> TypeInfo) list \<Rightarrow> string \<Rightarrow> FieldDefinition list \<Rightarrow> error + string" where
  "generateRequestInterfaces_fields ts buffer [] = Inr buffer"
| "generateRequestInterfaces_fields ts buffer (field # rest) =
     (let fieldTypeStr = fieldType field;
          isOptional = \<not> HasSuffix fieldTypeStr ''!''
      in case determineFieldType ts fieldTypeStr of
           Inl e \<Rightarrow> Inl e
         | Inr fieldTypeTs \<Rightarrow>
             generateRequestInterfaces_fields ts
               (if isOptional then
                  buffer @ ''  '' @ fieldName field @ ''?: '' @ fieldTypeTs @ '';\<newline>''
                else
                  buffer @ ''  '' @ fieldName field @ '': '' @ fieldTypeTs @ '';\<newline>'')
               rest)"

fun generateRequestInterfaces ::
  "(string \<times> TypeInfo) list \<Rightarrow> string \<Rightarrow> string list \<Rightarrow> error + string" where
  "generateRequestInterfaces ts buffer [] = Inr buffer"
| "generateRequestInterfaces ts buffer (deferredType # rest) =
     (case map_of ts deferredType of
        Some typeInfo \<Rightarrow>
          (let projectionInterfaceName = deferredType @ ''Request'' in
           case generateRequestInterfaces_fields ts
                  (buffer @ ''export interface '' @ projectionInterfaceName @ '' {\<newline>'')
                  (defFields (infoDefinition typeInfo)) of
             Inl e \<Rightarrow> Inl e
           | Inr buffer' \<Rightarrow>
               generateRequestInterfaces ts (buffer' @ ''}\<newline>\<newline>'') rest)
      | None \<Rightarrow> generateRequestInterfaces ts buffer rest)"

text \<open>The loop of \<^verbatim>\<open>generateTypescriptFile\<close> over \<^verbatim>\<open>types\<close>.\<close>

fun generateTypescriptFile_types ::
  "(string \<times> TypeInfo) list \<Rightarrow> string \<Rightarrow> (string \<times> TypeInfo) list
     \<Rightarrow> string list \<times> string list \<Rightarrow> error + (string \<times> string list \<times> string list)" where
  "generateTypescriptFile_types ts buffer [] st = Inr (buffer, st)"
| "generateTypescriptFile_types ts buffer ((key, typeInfo) # rest) st =
     (case generateTypeInterface buffer typeInfo of
        Inl e \<Rightarrow> Inl e
      | Inr buffer' \<Rightarrow>
          (case bufferFields ts (defFields (infoDefinition typeInfo)) st of
             Inl e \<Rightarrow> Inl e
           | Inr st' \<Rightarrow> generateTypescriptFile_types ts buffer' rest st'))"

text \<open>
  \<^verbatim>\<open>generateTypescriptFile\<close> from the header down to the call of
  \<^verbatim>\<open>bufferMissingRequestInterfaces\<close>: the buffer and \<open>deferredInterfaces\<close> as they
  stand when \<^verbatim>\<open>generateRequestInterfaces\<close> is called.
\<close>

definition generateTypescriptFile_resolve :: "globals \<Rightarrow> error + (string \<times> string list)" where
  "generateTypescriptFile_resolve g =
     (let buffer0 = generateEnums (writeFileHeader []) (enums g) in
      case generateTypescriptFile_types (types g) buffer0 (types g) ([], []) of
        Inl e \<Rightarrow> Inl e
      | Inr (buffer1, st1) \<Rightarrow>
          (case generateRootInterfaces (types g) buffer1 (queries g) ''Query'' st1 of
             Inl e \<Rightarrow> Inl e
           | Inr (buffer2, st2) \<Rightarrow>
               (case generateRootInterfaces (types g) buffer2 (mutations g) ''Mutation'' st2 of
                  Inl e \<Rightarrow> Inl e
                | Inr (buffer3, (processedTypes, deferredInterfaces)) \<Rightarrow>
                    (case bufferMissingRequestInterfaces (types g) deferredInterfaces of
                       Inl e \<Rightarrow> Inl e
                     | Inr deferredInterfaces' \<Rightarrow> Inr (buffer3, deferredInterfaces')))))"

text \<open>
  \<open>created\<close> says whether \<^verbatim>\<open>os.Create\<close> succeeded. The result is the text handed to
  the file.
\<close>

definition generateTypescriptFile :: "bool \<Rightarrow> globals \<Rightarrow> error + string" where
  "generateTypescriptFile created g =
     (if \<not> created then Inl CouldNotCreateFile
      else
        (case generateTypescriptFile_resolve g of
           Inl e \<Rightarrow> Inl e
         | Inr (buffer, deferredInterfaces) \<Rightarrow>
             generateRequestInterfaces (types g) buffer deferredInterfaces))"


subsection \<open>Notions used to state the claims\<close>

text \<open>
  For the aggregator: the definitions of a file, the test that makes a definition a root
  (\<open>Query\<close> or \<open>Mutation\<close>) in \<^const>\<open>processType\<close>, the fields of the roots of that name
  in the order they are met, and the last field of a given name in such a list: the last
  writer, or failing that what the map held before.
\<close>

fun typesOf :: "schemaFile \<Rightarrow> Definition list" where
  "typesOf (Schema ts) = ts"
| "typesOf Unreadable = []"
| "typesOf Unparsable = []"

definition isRoot :: "string \<Rightarrow> Definition \<Rightarrow> bool" where
  "isRoot root typ = ((defKind typ = Object \<or> defKind typ = Interface) \<and> defName typ = root)"

definition rootFieldsOf :: "string \<Rightarrow> Definition list \<Rightarrow> FieldDefinition list" where
  "rootFieldsOf root ts = concat (map defFields (filter (isRoot root) ts))"

definition lastNamed :: "string \<Rightarrow> FieldDefinition list \<Rightarrow> FieldDefinition option" where
  "lastNamed n fs = List.find (\<lambda>f. fieldName f = n) (rev fs)"

definition lastWriter ::
  "string \<Rightarrow> FieldDefinition list \<Rightarrow> (string \<times> FieldDefinition) list \<Rightarrow> FieldDefinition option" where
  "lastWriter n fs m = (case lastNamed n fs of Some f \<Rightarrow> Some f | None \<Rightarrow> map_of m n)"

text \<open>
  For the resolver: \<open>bracketed\<close> is the list test of the program,
  \<^verbatim>\<open>HasPrefix(s, "[") && HasSuffix(s, "]")\<close>. A \<open>plainName\<close> carries no marker and no
  brackets; the names the parser gives to types are of that kind. \<open>marksWithin ts st st'\<close>
  relates the two maps before and after a resolver step: marks are only added, those
  added to \<open>deferredInterfaces\<close> are names registered in \<open>ts\<close>, and no name is listed
  twice. \<open>requestFieldLine\<close> is the line of a request interface for a field whose
  projection type is given.
\<close>

definition bracketed :: "string \<Rightarrow> bool" where
  "bracketed s = (HasPrefix s ''['' \<and> HasSuffix s '']'')"

definition plainName :: "string \<Rightarrow> bool" where
  "plainName n = (\<not> HasSuffix n ''!'' \<and> \<not> bracketed n)"

definition marksWithin ::
  "(string \<times> TypeInfo) list \<Rightarrow> string list \<times> string list \<Rightarrow> string list \<times> string list \<Rightarrow> bool"
  where
  "marksWithin ts st st' =
     (set (fst st) \<subseteq> set (fst st') \<and>
      set (snd st) \<subseteq> set (snd st') \<and>
      set (snd st') \<subseteq> set (snd st) \<union> fst ` set ts \<and>
      (distinct (snd st) \<longrightarrow> distinct (snd st')))"

definition requestFieldLine :: "FieldDefinition \<Rightarrow> string \<Rightarrow> string" where
  "requestFieldLine field fieldTypeTs =
     (if fieldType field \<noteq> [] \<and> last (fieldType field) = CHR ''!''
      then ''  '' @ fieldName field @ '': '' @ fieldTypeTs @ '';\<newline>''
      else ''  '' @ fieldName field @ ''?: '' @ fieldTypeTs @ '';\<newline>'')"

subsection \<open>The projection type as the specification words it\<close>

text \<open>
  \<open>marker\<close> is the optional non-null marker. \<open>stripAllWrappers\<close> removes every marker and
  every pair of list brackets, to any depth, and \<open>claimedRequestType\<close> is the projection
  type the specification gives a field: from the name left after all that stripping, and
  wrapped in \<open>Array<...>\<close> when the reference is a list. They follow the specification's
  words, not the program, and serve to compare the two.
\<close>

definition marker :: "bool \<Rightarrow> string" where
  "marker nonNull = (if nonNull then ''!'' else [])"

function stripAllWrappers :: "string \<Rightarrow> string" where
  "stripAllWrappers ref =
     (let c = TrimSuffix ref ''!'' in
      if bracketed c then stripAllWrappers (butlast (tl c)) else c)"
  by pat_completeness auto
termination
proof (relation "measure length", goal_cases)
  case 1
  show ?case by simp
next
  case (2 ref c)
  then have "2 \<le> length c"
    by (simp add: bracketed_def bracketed_length)
  moreover have "length c \<le> length ref"
    unfolding 2(1) by (rule length_TrimSuffix_le)
  ultimately show ?case by simp
qed

declare stripAllWrappers.simps [simp del]

definition claimedRequestType :: "(string \<times> TypeInfo) list \<Rightarrow> string \<Rightarrow> string" where
  "claimedRequestType ts ref =
     (let base = stripAllWrappers ref;
          inner = (if isObjectType ts base then base @ ''Request'' else ''boolean | number'')
      in if bracketed (TrimSuffix ref ''!'') then ''Array<'' @ inner @ ''>'' else inner)"

subsection \<open>The text of the output\<close>

text \<open>
  The output as a text computed from the registry, to compare with what the emitter
  writes. \<open>translatedType\<close> and \<open>projectedType\<close> are the types the translator and
  \<^const>\<open>determineFieldType\<close> return for a reference. \<open>dataFieldLine\<close> is the line of a field
  in a data interface, \<open>typeInterfaceText\<close> the interface of a registered type,
  \<open>requestInterfaceText\<close> the request interface of a name (nothing for a name that is
  not registered), and \<open>dataSectionsText\<close> everything that precedes the request
  interfaces: header, enums, data interfaces, \<open>Query\<close> and \<open>Mutation\<close>.
\<close>

definition translatedType :: "string \<Rightarrow> string" where
  "translatedType ref = (case convertGraphqlTypeToTs ref of Inr expr \<Rightarrow> expr | Inl e \<Rightarrow> [])"

definition projectedType :: "(string \<times> TypeInfo) list \<Rightarrow> string \<Rightarrow> string" where
  "projectedType ts ref = (case determineFieldType ts ref of Inr t \<Rightarrow> t | Inl e \<Rightarrow> [])"

definition dataFieldLine :: "FieldDefinition \<Rightarrow> string" where
  "dataFieldLine field =
     (if fieldType field \<noteq> [] \<and> last (fieldType field) = CHR ''!''
      then ''  '' @ fieldName field @ '': '' @ translatedType (fieldType field) @ '';\<newline>''
      else ''  '' @ fieldName field @ ''?: Nullable<'' @ translatedType (fieldType field) @
           ''>;\<newline>'')"

definition typeInterfaceText :: "TypeInfo \<Rightarrow> string" where
  "typeInterfaceText typeInfo =
     (if defKind (infoDefinition typeInfo) = Object \<or> defKind (infoDefinition typeInfo) = Interface
      then ''export interface '' @ infoName typeInfo @ '' {\<newline>'' else []) @
     concat (map dataFieldLine (defFields (infoDefinition typeInfo))) @
     ''}\<newline>\<newline>''"

definition requestInterfaceText :: "(string \<times> TypeInfo) list \<Rightarrow> string \<Rightarrow> string" where
  "requestInterfaceText ts deferredType =
     (case map_of ts deferredType of
        None \<Rightarrow> []
      | Some typeInfo \<Rightarrow>
          ''export interface '' @ deferredType @ ''Request {\<newline>'' @
          concat (map (\<lambda>field. requestFieldLine field (projectedType ts (fieldType field)))
                    (defFields (infoDefinition typeInfo))) @
          ''}\<newline>\<newline>'')"

definition dataSectionsText :: "globals \<Rightarrow> string" where
  "dataSectionsText g =
     ''/*\<newline>'' @
     '' * -------------------------------------------------------\<newline>'' @
     '' * THIS FILE WAS AUTOMATICALLY GENERATED (DO NOT MODIFY)\<newline>'' @
     '' * -------------------------------------------------------\<newline>'' @
     '' */\<newline>\<newline>'' @
     ''/* tslint:disable */\<newline>'' @
     ''/* eslint-disable */\<newline>\<newline>'' @
     ''type Nullable<T> = T | null;\<newline>\<newline>'' @
     concat (map (\<lambda>(key, enum).
        ''export enum '' @ defName enum @ '' {\<newline>'' @
        concat (map (\<lambda>v. ''  '' @ v @ '' = '' @ [CHR 0x27] @ v @ [CHR 0x27] @ '',\<newline>'')
                  (defEnumValues enum)) @
        ''}\<newline>\<newline>'') (enums g)) @
     concat (map (\<lambda>(key, typeInfo). typeInterfaceText typeInfo) (types g)) @
     (if queries g = [] then []
      else ''export interface Query {\<newline>'' @
           concat (map (\<lambda>(key, field). dataFieldLine field) (queries g)) @
           ''}\<newline>\<newline>'') @
     (if mutations g = [] then []
      else ''export interface Mutation {\<newline>'' @
           concat (map (\<lambda>(key, field). dataFieldLine field) (mutations g)) @
           ''}\<newline>\<newline>'')"


subsection \<open>Example schemas\<close>

text \<open>Concrete registries and documents, used to run the model.\<close>

definition fooString :: Definition where
  "fooString = \<lparr>defKind = Object, defName = ''Foo'',
     defFields = [\<lparr>fieldName = ''a'', fieldType = ''String''\<rparr>], defEnumValues = []\<rparr>"

definition fooInt :: Definition where
  "fooInt = \<lparr>defKind = Object, defName = ''Foo'',
     defFields = [\<lparr>fieldName = ''a'', fieldType = ''Int''\<rparr>], defEnumValues = []\<rparr>"

definition fooRegistry :: "bool \<Rightarrow> globals" where
  "fooRegistry skip = \<lparr>types = [(''Foo'', \<lparr>infoName = ''Foo'', infoDefinition = fooString\<rparr>)],
     enums = [], queries = [], mutations = [], skipChecks = skip\<rparr>"


definition queryString :: Definition where
  "queryString = \<lparr>defKind = Object, defName = ''Query'',
     defFields = [\<lparr>fieldName = ''a'', fieldType = ''String''\<rparr>], defEnumValues = []\<rparr>"

definition queryInt :: Definition where
  "queryInt = \<lparr>defKind = Object, defName = ''Query'',
     defFields = [\<lparr>fieldName = ''a'', fieldType = ''Int''\<rparr>], defEnumValues = []\<rparr>"

definition nodeGlobals :: globals where
  "nodeGlobals =
     \<lparr>types = [(''Node'', \<lparr>infoName = ''Node'', infoDefinition =
         \<lparr>defKind = Object, defName = ''Node'',
            defFields = [\<lparr>fieldName = ''parent'', fieldType = ''Node''\<rparr>],
            defEnumValues = []\<rparr>\<rparr>)],
      enums = [], queries = [], mutations = [], skipChecks = False\<rparr>"

definition orphanGlobals :: globals where
  "orphanGlobals =
     \<lparr>types =
        [(''User'', \<lparr>infoName = ''User'', infoDefinition =
            \<lparr>defKind = Object, defName = ''User'',
               defFields = [\<lparr>fieldName = ''id'', fieldType = ''ID!''\<rparr>],
               defEnumValues = []\<rparr>\<rparr>),
         (''Orphan'', \<lparr>infoName = ''Orphan'', infoDefinition =
            \<lparr>defKind = Object, defName = ''Orphan'',
               defFields = [\<lparr>fieldName = ''tag'', fieldType = ''String''\<rparr>],
               defEnumValues = []\<rparr>\<rparr>)],
      enums = [],
      queries = [(''me'', \<lparr>fieldName = ''me'', fieldType = ''User''\<rparr>)],
      mutations = [], skipChecks = False\<rparr>"

definition userGlobals :: globals where
  "userGlobals =
     \<lparr>types = [(''User'', \<lparr>infoName = ''User'', infoDefinition =
         \<lparr>defKind = Object, defName = ''User'',
            defFields = [\<lparr>fieldName = ''id'', fieldType = ''ID!''\<rparr>,
                         \<lparr>fieldName = ''friends'', fieldType = ''[User!]!''\<rparr>],
            defEnumValues = []\<rparr>\<rparr>)],
      enums = [], queries = [], mutations = [], skipChecks = False\<rparr>"

definition mutualGlobals :: globals where
  "mutualGlobals =
     \<lparr>types =
        [(''Author'', \<lparr>infoName = ''Author'', infoDefinition =
            \<lparr>defKind = Object, defName = ''Author'',
               defFields = [\<lparr>fieldName = ''books'', fieldType = ''[Book!]!''\<rparr>],
               defEnumValues = []\<rparr>\<rparr>),
         (''Book'', \<lparr>infoName = ''Book'', infoDefinition =
            \<lparr>defKind = Object, defName = ''Book'',
               defFields = [\<lparr>fieldName = ''author'', fieldType = ''Author!''\<rparr>],
               defEnumValues = []\<rparr>\<rparr>)],
      enums = [], queries = [], mutations = [], skipChecks = False\<rparr>"

subsection \<open>Facts about the translator\<close>

lemma convertGraphqlTypeToTs_returns: "\<exists>t. convertGraphqlTypeToTs s = Inr t"
proof (induction s rule: convertGraphqlTypeToTs.induct)
  case (1 graphqlType)
  let ?c = "TrimSuffix graphqlType ''!''"
  show ?case
  proof (cases "HasPrefix ?c ''['' \<and> HasSuffix ?c '']''")
    case True
    then have s: "slice ?c 1 (int (length ?c) - 1) = Inr (butlast (tl ?c))"
      by (simp add: slice_bracketed)
    from "1.IH" [OF refl True s]
    obtain t where "convertGraphqlTypeToTs (butlast (tl ?c)) = Inr t" by blast
    with True s show ?thesis
      by (subst convertGraphqlTypeToTs.simps) (simp add: Let_def)
  next
    case False
    then show ?thesis
      by (subst convertGraphqlTypeToTs.simps) (auto simp add: Let_def)
  qed
qed

lemma convertGraphqlTypeToTs_list:
  "convertGraphqlTypeToTs (''['' @ T @ '']'') =
     (case convertGraphqlTypeToTs T of
        Inl e \<Rightarrow> Inl e
      | Inr i \<Rightarrow> Inr (''Array<'' @ i @ ''>''))"
proof -
  let ?l = "''['' @ T @ '']''"
  have t: "TrimSuffix ?l ''!'' = ?l"
    using TrimSuffix_snoc [of "''['' @ T" "CHR '']''" "CHR ''!''"] by simp
  have p: "HasPrefix ?l ''[''" by simp
  have s: "HasSuffix ?l '']''"
    using HasSuffix_snoc [of "''['' @ T" "CHR '']''" "CHR '']''"] by simp
  have "slice ?l 1 (int (length ?l) - 1) = Inr (butlast (tl ?l))"
    using p s by (rule slice_bracketed)
  then have sl: "slice ?l 1 (int (length ?l) - 1) = Inr T"
    by (simp add: butlast_append)
  show ?thesis
    by (subst convertGraphqlTypeToTs.simps)
       (simp only: t Let_def p s sl simp_thms if_True sum.case)
qed

lemma convertGraphqlTypeToTs_marker:
  assumes "\<not> HasSuffix T ''!''"
  shows "convertGraphqlTypeToTs (T @ ''!'') = convertGraphqlTypeToTs T"
proof -
  have "TrimSuffix (T @ ''!'') ''!'' = TrimSuffix T ''!''"
    using assms by (simp add: TrimSuffix_id)
  then show ?thesis
    by (subst convertGraphqlTypeToTs.simps, subst (2) convertGraphqlTypeToTs.simps) simp
qed

subsection \<open>Facts about the registry\<close>

lemma compareDefinitions_loop_equal_length:
  assumes "length aFields = length bFields"
  shows "compareDefinitions_loop i aFields bFields =
           Inr (\<forall>j. i \<le> j \<and> j < length aFields \<longrightarrow>
                  fieldName (aFields ! j) = fieldName (bFields ! j) \<and>
                  fieldType (aFields ! j) = fieldType (bFields ! j))"
  using assms
proof (induction i aFields bFields rule: compareDefinitions_loop.induct)
  case (1 i aFields bFields)
  show ?case
  proof (cases "i < length aFields")
    case False
    then show ?thesis
      by (subst compareDefinitions_loop.simps) auto
  next
    case True
    note inRange = this
    show ?thesis
    proof (cases "fieldName (aFields ! i) \<noteq> fieldName (bFields ! i)
                  \<or> fieldType (aFields ! i) \<noteq> fieldType (bFields ! i)")
      case True
      with inRange "1.prems" show ?thesis
        by (subst compareDefinitions_loop.simps) auto
    next
      case False
      with inRange "1.prems" have b: "\<not> length bFields \<le> i" by simp
      from "1.IH" [OF inRange b False "1.prems"]
      have "compareDefinitions_loop (i + 1) aFields bFields =
              Inr (\<forall>j. i + 1 \<le> j \<and> j < length aFields \<longrightarrow>
                     fieldName (aFields ! j) = fieldName (bFields ! j) \<and>
                     fieldType (aFields ! j) = fieldType (bFields ! j))" .
      moreover have "(\<forall>j. i + 1 \<le> j \<and> j < length aFields \<longrightarrow>
                     fieldName (aFields ! j) = fieldName (bFields ! j) \<and>
                     fieldType (aFields ! j) = fieldType (bFields ! j)) =
                   (\<forall>j. i \<le> j \<and> j < length aFields \<longrightarrow>
                     fieldName (aFields ! j) = fieldName (bFields ! j) \<and>
                     fieldType (aFields ! j) = fieldType (bFields ! j))"
        using False by (metis Suc_eq_plus1 Suc_leI le_neq_implies_less le_SucE order_refl Suc_leD)
      ultimately show ?thesis
        using inRange b False by (subst compareDefinitions_loop.simps) simp
    qed
  qed
qed

lemma compareDefinitions_eq:
  "compareDefinitions a b =
     Inr (length (defFields a) = length (defFields b) \<and>
          (\<forall>i < length (defFields a).
             fieldName (defFields a ! i) = fieldName (defFields b ! i) \<and>
             fieldType (defFields a ! i) = fieldType (defFields b ! i)))"
  by (simp add: compareDefinitions_def compareDefinitions_loop_equal_length)

subsection \<open>Facts about the aggregator\<close>

lemma map_of_storeFields:
  "map_of (storeFields fs m) = map_of m ++ map_of (rev (map (\<lambda>f. (fieldName f, f)) fs))"
proof (induction fs arbitrary: m)
  case Nil
  show ?case by simp
next
  case (Cons f fs)
  show ?case
    by (simp add: Cons.IH update_conv' map_add_def fun_eq_iff split: option.splits)
qed

lemma map_of_rev_find:
  "map_of (map (\<lambda>f. (fieldName f, f)) fs) n = List.find (\<lambda>f. fieldName f = n) fs"
  by (induction fs) auto

lemma storeFields_lastWriter:
  "map_of (storeFields fs m) n = lastWriter n fs m"
  by (simp add: map_of_storeFields lastWriter_def lastNamed_def map_add_def rev_map map_of_rev_find
      split: option.splits)

lemma find_append_cases:
  "List.find P (xs @ ys) = (case List.find P xs of None \<Rightarrow> List.find P ys | Some x \<Rightarrow> Some x)"
  by (induction xs) auto

lemma lastWriter_append:
  "lastWriter n (fs @ fs') m = (case lastNamed n fs' of Some f \<Rightarrow> Some f | None \<Rightarrow> lastWriter n fs m)"
  by (auto simp: lastWriter_def lastNamed_def find_append_cases split: option.splits)

lemma addTypeOrInterface_roots:
  "addTypeOrInterface g typ = Inr g' \<Longrightarrow> queries g' = queries g \<and> mutations g' = mutations g"
  by (auto simp: addTypeOrInterface_def split: option.splits if_splits sum.splits)

lemma addEnum_roots:
  "addEnum g typ = Inr g' \<Longrightarrow> queries g' = queries g \<and> mutations g' = mutations g"
  by (auto simp: addEnum_def split: option.splits if_splits sum.splits)

lemma processType_queries:
  assumes "processType g typ = Inr g'"
  shows "map_of (queries g') n = lastWriter n (rootFieldsOf ''Query'' [typ]) (queries g)"
proof (cases "isRoot ''Query'' typ")
  case True
  with assms show ?thesis
    by (auto simp: processType_def isRoot_def rootFieldsOf_def storeFields_lastWriter)
next
  case False
  with assms have "queries g' = queries g"
    by (auto simp: processType_def isRoot_def split: if_splits sum.splits
        dest: addTypeOrInterface_roots addEnum_roots)
  with False show ?thesis
    by (simp add: rootFieldsOf_def lastWriter_def lastNamed_def)
qed

lemma processType_mutations:
  assumes "processType g typ = Inr g'"
  shows "map_of (mutations g') n = lastWriter n (rootFieldsOf ''Mutation'' [typ]) (mutations g)"
proof (cases "isRoot ''Mutation'' typ")
  case True
  with assms show ?thesis
    by (auto simp: processType_def isRoot_def rootFieldsOf_def storeFields_lastWriter)
next
  case False
  with assms have "mutations g' = mutations g"
    by (auto simp: processType_def isRoot_def split: if_splits sum.splits
        dest: addTypeOrInterface_roots addEnum_roots)
  with False show ?thesis
    by (simp add: rootFieldsOf_def lastWriter_def lastNamed_def)
qed


lemma rootFieldsOf_Cons:
  "rootFieldsOf root (typ # rest) = rootFieldsOf root [typ] @ rootFieldsOf root rest"
  by (simp add: rootFieldsOf_def)

lemma lastWriter_chain:
  assumes "\<And>n. map_of m1 n = lastWriter n fs m"
  shows "lastWriter n fs' m1 = lastWriter n (fs @ fs') m"
proof -
  have "lastWriter n (fs @ fs') m =
          (case lastNamed n fs' of Some f \<Rightarrow> Some f | None \<Rightarrow> lastWriter n fs m)"
    by (rule lastWriter_append)
  also have "lastWriter n fs m = map_of m1 n"
    by (simp add: assms)
  finally show ?thesis
    by (simp add: lastWriter_def [of n fs' m1])
qed

lemma processTypes_queries:
  "processTypes g ts = Inr g' \<Longrightarrow>
     map_of (queries g') n = lastWriter n (rootFieldsOf ''Query'' ts) (queries g)"
proof (induction ts arbitrary: g)
  case Nil
  then show ?case by (simp add: rootFieldsOf_def lastWriter_def lastNamed_def)
next
  case (Cons d rest)
  from Cons.prems obtain g1 where
    1: "processType g d = Inr g1" and 2: "processTypes g1 rest = Inr g'"
    by (auto split: sum.splits)
  have "map_of (queries g') n = lastWriter n (rootFieldsOf ''Query'' rest) (queries g1)"
    by (rule Cons.IH [OF 2])
  also have "\<dots> = lastWriter n (rootFieldsOf ''Query'' [d] @ rootFieldsOf ''Query'' rest) (queries g)"
    by (rule lastWriter_chain) (rule processType_queries [OF 1])
  finally show ?case by (simp add: rootFieldsOf_Cons [of _ d rest])
qed

lemma processTypes_mutations:
  "processTypes g ts = Inr g' \<Longrightarrow>
     map_of (mutations g') n = lastWriter n (rootFieldsOf ''Mutation'' ts) (mutations g)"
proof (induction ts arbitrary: g)
  case Nil
  then show ?case by (simp add: rootFieldsOf_def lastWriter_def lastNamed_def)
next
  case (Cons d rest)
  from Cons.prems obtain g1 where
    1: "processType g d = Inr g1" and 2: "processTypes g1 rest = Inr g'"
    by (auto split: sum.splits)
  have "map_of (mutations g') n = lastWriter n (rootFieldsOf ''Mutation'' rest) (mutations g1)"
    by (rule Cons.IH [OF 2])
  also have "\<dots> = lastWriter n (rootFieldsOf ''Mutation'' [d] @ rootFieldsOf ''Mutation'' rest) (mutations g)"
    by (rule lastWriter_chain) (rule processType_mutations [OF 1])
  finally show ?case by (simp add: rootFieldsOf_Cons [of _ d rest])
qed

lemma processSchemaFiles_queries:
  "processSchemaFiles g files = Inr g' \<Longrightarrow>
     map_of (queries g') n =
       lastWriter n (rootFieldsOf ''Query'' (concat (map typesOf files))) (queries g)"
proof (induction files arbitrary: g)
  case Nil
  then show ?case by (simp add: rootFieldsOf_def lastWriter_def lastNamed_def)
next
  case (Cons sf rest)
  from Cons.prems obtain g1 ts where
    f: "sf = Schema ts" and 1: "processTypes g ts = Inr g1"
    and 2: "processSchemaFiles g1 rest = Inr g'"
    by (auto simp: processSchemaFile_def split: sum.splits schemaFile.splits)
  have "map_of (queries g') n =
          lastWriter n (rootFieldsOf ''Query'' (concat (map typesOf rest))) (queries g1)"
    by (rule Cons.IH [OF 2])
  also have "\<dots> = lastWriter n (rootFieldsOf ''Query'' ts @
                        rootFieldsOf ''Query'' (concat (map typesOf rest))) (queries g)"
    by (rule lastWriter_chain) (rule processTypes_queries [OF 1])
  finally show ?case by (simp add: f rootFieldsOf_def)
qed

lemma processSchemaFiles_mutations:
  "processSchemaFiles g files = Inr g' \<Longrightarrow>
     map_of (mutations g') n =
       lastWriter n (rootFieldsOf ''Mutation'' (concat (map typesOf files))) (mutations g)"
proof (induction files arbitrary: g)
  case Nil
  then show ?case by (simp add: rootFieldsOf_def lastWriter_def lastNamed_def)
next
  case (Cons sf rest)
  from Cons.prems obtain g1 ts where
    f: "sf = Schema ts" and 1: "processTypes g ts = Inr g1"
    and 2: "processSchemaFiles g1 rest = Inr g'"
    by (auto simp: processSchemaFile_def split: sum.splits schemaFile.splits)
  have "map_of (mutations g') n =
          lastWriter n (rootFieldsOf ''Mutation'' (concat (map typesOf rest))) (mutations g1)"
    by (rule Cons.IH [OF 2])
  also have "\<dots> = lastWriter n (rootFieldsOf ''Mutation'' ts @
                        rootFieldsOf ''Mutation'' (concat (map typesOf rest))) (mutations g)"
    by (rule lastWriter_chain) (rule processTypes_mutations [OF 1])
  finally show ?case by (simp add: f rootFieldsOf_def)
qed

lemma processType_root_returns:
  assumes "isRoot ''Query'' typ \<or> isRoot ''Mutation'' typ"
  shows "\<exists>g'. processType g typ = Inr g' \<and> types g' = types g \<and> enums g' = enums g"
  using assms by (auto simp: processType_def isRoot_def)

subsection \<open>Facts about the resolver\<close>

lemma extractCleanType_eq:
  "extractCleanType s =
     Inr (if bracketed (TrimSuffix s ''!'')
          then TrimSuffix (butlast (tl (TrimSuffix s ''!''))) ''!''
          else TrimSuffix s ''!'')"
  by (simp add: extractCleanType_def bracketed_def slice_bracketed Let_def)

lemma extractCleanType_returns: "\<exists>c. extractCleanType s = Inr c"
  by (simp add: extractCleanType_eq)

lemma extractCleanType_plainName: "plainName n \<Longrightarrow> extractCleanType n = Inr n"
  by (simp add: extractCleanType_eq plainName_def TrimSuffix_id)

lemma isObjectOrArrayOfObjects_returns: "\<exists>b. isObjectOrArrayOfObjects ts s = Inr b"
  by (simp add: isObjectOrArrayOfObjects_def extractCleanType_eq)

lemma isObjectOrArrayOfObjects_plainName:
  "plainName n \<Longrightarrow> isObjectOrArrayOfObjects ts n = Inr (n \<in> fst ` set ts)"
  by (force simp add: isObjectOrArrayOfObjects_def extractCleanType_plainName map_of_eq_None_iff
      split: option.splits dest: map_of_SomeD)

lemma distinct_setTrue [simp]: "distinct (setTrue k m) = distinct m"
  by (auto simp: setTrue_def)

lemma marksWithin_refl [simp]: "marksWithin ts st st"
  by (auto simp: marksWithin_def)

lemma marksWithin_trans:
  "marksWithin ts st st1 \<Longrightarrow> marksWithin ts st1 st2 \<Longrightarrow> marksWithin ts st st2"
  by (auto simp: marksWithin_def)

lemma marksWithin_setTrue:
  assumes "map_of ts c = Some ti"
  shows "marksWithin ts (p, d) (setTrue c p, setTrue c d)"
proof -
  from assms have "c \<in> fst ` set ts" by (force dest: map_of_SomeD)
  then show ?thesis by (auto simp: marksWithin_def)
qed

lemma bufferRequestInterface_marksWithin:
  "\<exists>st'. bufferRequestInterface ts returnType st = Inr st' \<and> marksWithin ts st st'"
  "\<exists>st'. bufferFields ts fs st = Inr st' \<and> marksWithin ts st st'"
proof (induction ts returnType st and ts fs st rule: bufferRequestInterface_bufferFields.induct)
  case (1 ts returnType processedTypes deferredInterfaces)
  obtain c where c: "extractCleanType returnType = Inr c"
    using extractCleanType_returns by blast
  show ?case
  proof (cases "c \<in> set processedTypes")
    case True
    with c show ?thesis by (simp add: bufferRequestInterface.simps)
  next
    case False
    note fresh = this
    show ?thesis
    proof (cases "map_of ts c")
      case None
      with c fresh show ?thesis
        by (auto simp add: bufferRequestInterface.simps marksWithin_def)
    next
      case (Some typeInfo)
      from "1.IH" [OF c fresh Some] obtain st' where
        r: "bufferFields ts (defFields (infoDefinition typeInfo))
              (setTrue c processedTypes, setTrue c deferredInterfaces) = Inr st'"
        and m: "marksWithin ts (setTrue c processedTypes, setTrue c deferredInterfaces) st'"
        by blast
      from marksWithin_setTrue [OF Some] m
      have "marksWithin ts (processedTypes, deferredInterfaces) st'"
        by (rule marksWithin_trans)
      with c fresh Some r show ?thesis
        by (simp add: bufferRequestInterface.simps)
    qed
  qed
next
  case (2 ts st)
  show ?case by simp
next
  case (3 ts field rest st)
  obtain isObj where o: "isObjectOrArrayOfObjects ts (fieldType field) = Inr isObj"
    using isObjectOrArrayOfObjects_returns by blast
  show ?case
  proof (cases isObj)
    case True
    from "3.IH"(1) [OF o True] obtain st1 where
      r: "bufferRequestInterface ts (fieldType field) st = Inr st1"
      and m1: "marksWithin ts st st1" by blast
    from "3.IH"(2) [OF o True r] obtain st' where
      f: "bufferFields ts rest st1 = Inr st'" and m2: "marksWithin ts st1 st'" by blast
    from m1 m2 have "marksWithin ts st st'" by (rule marksWithin_trans)
    with o True r f show ?thesis by simp
  next
    case False
    from "3.IH"(3) [OF o False] o False show ?thesis by simp
  qed
qed

lemma bufferRequestInterface_guard:
  assumes "extractCleanType returnType = Inr c" and "c \<in> set processedTypes"
  shows "bufferRequestInterface ts returnType (processedTypes, deferredInterfaces) =
           Inr (processedTypes, deferredInterfaces)"
  using assms by (simp add: bufferRequestInterface.simps)

lemma bufferRequestInterface_marks:
  assumes "bufferRequestInterface ts returnType st = Inr st'"
    and "extractCleanType returnType = Inr c"
  shows "c \<in> set (fst st')"
proof (cases st)
  case (Pair p d)
  show ?thesis
  proof (cases "c \<in> set p")
    case True
    with assms Pair show ?thesis by (auto simp add: bufferRequestInterface.simps)
  next
    case False
    show ?thesis
    proof (cases "map_of ts c")
      case None
      with assms Pair False show ?thesis by (auto simp add: bufferRequestInterface.simps)
    next
      case (Some typeInfo)
      with assms Pair False have
        "bufferFields ts (defFields (infoDefinition typeInfo)) (setTrue c p, setTrue c d) = Inr st'"
        by (simp add: bufferRequestInterface.simps)
      with bufferRequestInterface_marksWithin(2)
        [of ts "defFields (infoDefinition typeInfo)" "(setTrue c p, setTrue c d)"]
      have "marksWithin ts (setTrue c p, setTrue c d) st'" by simp
      then show ?thesis by (auto simp: marksWithin_def)
    qed
  qed
qed

lemma bufferRequestInterface_Inr:
  obtains p' d' where "bufferRequestInterface ts returnType (p, d) = Inr (p', d')"
    and "marksWithin ts (p, d) (p', d')"
  using bufferRequestInterface_marksWithin(1) [of ts returnType "(p, d)"]
  by (metis surj_pair)

lemma bufferFields_Inr:
  obtains p' d' where "bufferFields ts fs (p, d) = Inr (p', d')"
    and "marksWithin ts (p, d) (p', d')"
  using bufferRequestInterface_marksWithin(2) [of ts fs "(p, d)"]
  by (metis surj_pair)

text \<open>The sweep adds every key it visits that passes its test, and nothing outside the registry.\<close>

lemma bufferMissingRequestInterfaces_loop_returns:
  "\<exists>d'. bufferMissingRequestInterfaces_loop ts ks d = Inr d' \<and>
         set d \<subseteq> set d' \<and>
         set d' \<subseteq> set d \<union> set ks \<union> fst ` set ts \<and>
         (\<forall>k \<in> set ks. isObjectOrArrayOfObjects ts k = Inr True \<longrightarrow> k \<in> set d') \<and>
         (distinct d \<longrightarrow> distinct d')"
proof (induction ks arbitrary: d)
  case Nil
  show ?case by simp
next
  case (Cons k ks)
  obtain isObj where o: "isObjectOrArrayOfObjects ts k = Inr isObj"
    using isObjectOrArrayOfObjects_returns by blast
  show ?case
  proof (cases "isObj \<and> k \<notin> set d")
    case True
    obtain p1 d1 where r: "bufferRequestInterface ts k ([], setTrue k d) = Inr (p1, d1)"
      and m: "marksWithin ts ([], setTrue k d) (p1, d1)"
      by (rule bufferRequestInterface_Inr)
    from Cons.IH [of d1] obtain d' where
      l: "bufferMissingRequestInterfaces_loop ts ks d1 = Inr d'"
      and s1: "set d1 \<subseteq> set d'"
      and s2: "set d' \<subseteq> set d1 \<union> set ks \<union> fst ` set ts"
      and s3: "\<forall>k \<in> set ks. isObjectOrArrayOfObjects ts k = Inr True \<longrightarrow> k \<in> set d'"
      and s4: "distinct d1 \<longrightarrow> distinct d'"
      by blast
    from o True r l have "bufferMissingRequestInterfaces_loop ts (k # ks) d = Inr d'"
      by simp
    moreover from m s1 have "set d \<subseteq> set d'" and "k \<in> set d'"
      by (auto simp: marksWithin_def)
    moreover from m s2 have "set d' \<subseteq> set d \<union> set (k # ks) \<union> fst ` set ts"
      by (auto simp: marksWithin_def)
    moreover from m s4 have "distinct d \<longrightarrow> distinct d'"
      by (auto simp: marksWithin_def)
    ultimately show ?thesis using s3 by auto
  next
    case False
    from Cons.IH [of d] obtain d' where
      l: "bufferMissingRequestInterfaces_loop ts ks d = Inr d'"
      and s1: "set d \<subseteq> set d'"
      and s2: "set d' \<subseteq> set d \<union> set ks \<union> fst ` set ts"
      and s3: "\<forall>k \<in> set ks. isObjectOrArrayOfObjects ts k = Inr True \<longrightarrow> k \<in> set d'"
      and s4: "distinct d \<longrightarrow> distinct d'"
      by blast
    from o False l have "bufferMissingRequestInterfaces_loop ts (k # ks) d = Inr d'"
      by auto
    moreover from o False s1 have "isObjectOrArrayOfObjects ts k = Inr True \<longrightarrow> k \<in> set d'"
      by auto
    ultimately show ?thesis using s1 s2 s3 s4 by auto
  qed
qed

lemma bufferMissingRequestInterfaces_complete:
  assumes "list_all plainName (map fst ts)" and "set d \<subseteq> fst ` set ts" and "distinct d"
  shows "\<exists>d'. bufferMissingRequestInterfaces ts d = Inr d' \<and> set d' = fst ` set ts \<and> distinct d'"
proof -
  from bufferMissingRequestInterfaces_loop_returns [of ts "map fst ts" d]
  obtain d' where
    l: "bufferMissingRequestInterfaces_loop ts (map fst ts) d = Inr d'"
    and s2: "set d' \<subseteq> set d \<union> set (map fst ts) \<union> fst ` set ts"
    and s3: "\<forall>k \<in> set (map fst ts). isObjectOrArrayOfObjects ts k = Inr True \<longrightarrow> k \<in> set d'"
    and s4: "distinct d \<longrightarrow> distinct d'"
    by blast
  have "k \<in> set d'" if "k \<in> fst ` set ts" for k
  proof -
    from that assms(1) have "plainName k" by (auto simp: list_all_iff)
    then have "isObjectOrArrayOfObjects ts k = Inr True"
      using that by (simp add: isObjectOrArrayOfObjects_plainName)
    with s3 that show ?thesis by auto
  qed
  with s2 assms(2) have "set d' = fst ` set ts" by auto
  with l s4 assms(3) show ?thesis
    by (simp add: bufferMissingRequestInterfaces_def)
qed

subsection \<open>Facts about the emitter\<close>

text \<open>
  Every emitter function appends to the buffer it is given a text that does not depend on
  that buffer.
\<close>

lemma generateEnums_values_appends:
  "generateEnums_values buffer vs = buffer @ generateEnums_values [] vs"
proof (induction vs arbitrary: buffer)
  case Nil
  show ?case by simp
next
  case (Cons v vs)
  let ?x = "''  '' @ v @ '' = '' @ [CHR 0x27] @ v @ [CHR 0x27] @ '',\<newline>''"
  have "generateEnums_values buffer (v # vs) = (buffer @ ?x) @ generateEnums_values [] vs"
    using Cons.IH [of "buffer @ ?x"] by simp
  moreover have "generateEnums_values [] (v # vs) = ?x @ generateEnums_values [] vs"
    using Cons.IH [of ?x] by simp
  ultimately show ?case by simp
qed

lemma generateEnums_values_text:
  "generateEnums_values [] vs =
     concat (map (\<lambda>v. ''  '' @ v @ '' = '' @ [CHR 0x27] @ v @ [CHR 0x27] @ '',\<newline>'') vs)"
proof (induction vs)
  case Nil
  show ?case by simp
next
  case (Cons v vs)
  show ?case
    using generateEnums_values_appends
            [of "''  '' @ v @ '' = '' @ [CHR 0x27] @ v @ [CHR 0x27] @ '',\<newline>''" vs]
    by (simp add: Cons.IH)
qed

lemma generateEnums_appends:
  "generateEnums buffer es = buffer @ generateEnums [] es"
proof (induction es arbitrary: buffer)
  case Nil
  show ?case by simp
next
  case (Cons e es)
  obtain k enum where e: "e = (k, enum)" by (cases e)
  let ?x = "''export enum '' @ defName enum @ '' {\<newline>''"
  let ?y = "generateEnums_values [] (defEnumValues enum) @ ''}\<newline>\<newline>''"
  have v: "generateEnums_values (b @ ?x) (defEnumValues enum) @ ''}\<newline>\<newline>'' =
           b @ ?x @ ?y" for b
    using generateEnums_values_appends [of "b @ ?x" "defEnumValues enum"] by simp
  have "generateEnums buffer (e # es) = (buffer @ ?x @ ?y) @ generateEnums [] es"
    unfolding e generateEnums.simps v by (rule Cons.IH)
  moreover have "generateEnums [] (e # es) = (?x @ ?y) @ generateEnums [] es"
    unfolding e generateEnums.simps v [of "[]", simplified]
    using Cons.IH [of "?x @ ?y"] v [of "[]"] by simp
  ultimately show ?case by simp
qed

lemma generateEnums_text:
  "generateEnums [] es =
     concat (map (\<lambda>(key, enum).
        ''export enum '' @ defName enum @ '' {\<newline>'' @
        concat (map (\<lambda>v. ''  '' @ v @ '' = '' @ [CHR 0x27] @ v @ [CHR 0x27] @ '',\<newline>'')
                  (defEnumValues enum)) @
        ''}\<newline>\<newline>'') es)"
proof (induction es)
  case Nil
  show ?case by simp
next
  case (Cons e es)
  obtain k enum where e: "e = (k, enum)" by (cases e)
  let ?x = "''export enum '' @ defName enum @ '' {\<newline>''"
  have "generateEnums [] (e # es) =
          (generateEnums_values ?x (defEnumValues enum) @ ''}\<newline>\<newline>'') @
          generateEnums [] es"
    unfolding e generateEnums.simps append_Nil by (rule generateEnums_appends)
  also have "generateEnums_values ?x (defEnumValues enum) =
               ?x @ generateEnums_values [] (defEnumValues enum)"
    by (rule generateEnums_values_appends)
  finally show ?case
    by (simp add: e Cons.IH generateEnums_values_text)
qed

lemma writeField_appends:
  "\<exists>line. \<forall>buffer. writeField buffer field = Inr (buffer @ line)"
proof -
  obtain t where "convertGraphqlTypeToTs (fieldType field) = Inr t"
    using convertGraphqlTypeToTs_returns by blast
  then show ?thesis
    by (cases "HasSuffix (fieldType field) ''!''") (simp_all add: writeField_def)
qed

lemma generateTypeInterface_fields_appends:
  "\<exists>lines. list_all2 (\<lambda>field line. writeField [] field = Inr line) fs lines \<and>
           (\<forall>buffer. generateTypeInterface_fields buffer fs = Inr (buffer @ concat lines))"
proof (induction fs)
  case Nil
  show ?case by simp
next
  case (Cons f fs)
  obtain line where l: "\<And>buffer. writeField buffer f = Inr (buffer @ line)"
    using writeField_appends by blast
  from Cons.IH obtain lines where
    a: "list_all2 (\<lambda>field line. writeField [] field = Inr line) fs lines"
    and b: "\<And>buffer. generateTypeInterface_fields buffer fs = Inr (buffer @ concat lines)"
    by blast
  from l [of "[]"] a
  have "list_all2 (\<lambda>field line. writeField [] field = Inr line) (f # fs) (line # lines)"
    by simp
  moreover have "generateTypeInterface_fields buffer (f # fs) =
                   Inr (buffer @ concat (line # lines))" for buffer
    by (simp add: l b)
  ultimately show ?case by blast
qed

lemma generateTypeInterface_appends:
  "\<exists>text. \<forall>buffer. generateTypeInterface buffer typeInfo = Inr (buffer @ text)"
proof -
  obtain lines where
    b: "\<And>buffer. generateTypeInterface_fields buffer (defFields (infoDefinition typeInfo)) =
          Inr (buffer @ concat lines)"
    using generateTypeInterface_fields_appends by blast
  show ?thesis
  proof (cases "defKind (infoDefinition typeInfo) = Object \<or>
                defKind (infoDefinition typeInfo) = Interface")
    case True
    then have "generateTypeInterface buffer typeInfo =
        Inr (buffer @ (''export interface '' @ infoName typeInfo @ '' {\<newline>'' @
                concat lines @ ''}\<newline>\<newline>''))" for buffer
      by (auto simp add: generateTypeInterface_def b)
    then show ?thesis by blast
  next
    case False
    then have "generateTypeInterface buffer typeInfo =
        Inr (buffer @ (concat lines @ ''}\<newline>\<newline>''))" for buffer
      by (auto simp add: generateTypeInterface_def b)
    then show ?thesis by blast
  qed
qed

lemma generateRootInterfaces_fields_appends:
  "\<exists>lines st'.
      list_all2 (\<lambda>(key, field) line. writeField [] field = Inr line) fs lines \<and>
      marksWithin ts st st' \<and>
      (\<forall>buffer. generateRootInterfaces_fields ts buffer fs st = Inr (buffer @ concat lines, st'))"
proof (induction fs arbitrary: st)
  case Nil
  show ?case by (intro exI [of _ "[]"] exI [of _ st]) simp
next
  case (Cons kf fs)
  obtain key field where kf: "kf = (key, field)" by (cases kf)
  obtain line where l: "\<And>buffer. writeField buffer field = Inr (buffer @ line)"
    using writeField_appends by blast
  obtain st1 where r: "bufferRequestInterface ts (fieldType field) st = Inr st1"
    and m1: "marksWithin ts st st1"
    using bufferRequestInterface_marksWithin(1) by blast
  from Cons.IH [of st1] obtain lines st' where
    a: "list_all2 (\<lambda>(key, field) line. writeField [] field = Inr line) fs lines"
    and m2: "marksWithin ts st1 st'"
    and b: "\<And>buffer. generateRootInterfaces_fields ts buffer fs st1 =
              Inr (buffer @ concat lines, st')"
    by blast
  from l [of "[]"] a
  have "list_all2 (\<lambda>(key, field) line. writeField [] field = Inr line) (kf # fs) (line # lines)"
    by (simp add: kf)
  moreover from m1 m2 have "marksWithin ts st st'" by (rule marksWithin_trans)
  moreover have "generateRootInterfaces_fields ts buffer (kf # fs) st =
                   Inr (buffer @ concat (line # lines), st')" for buffer
    by (simp add: kf l r b)
  ultimately show ?case by blast
qed

lemma generateRootInterfaces_appends:
  "\<exists>lines st'.
      list_all2 (\<lambda>(key, field) line. writeField [] field = Inr line) fs lines \<and>
      marksWithin ts st st' \<and>
      (\<forall>buffer. generateRootInterfaces ts buffer fs rootName st =
         Inr (buffer @
                (if fs = [] then []
                 else ''export interface '' @ rootName @ '' {\<newline>'' @ concat lines @
                      ''}\<newline>\<newline>''), st'))"
proof (cases "fs = []")
  case True
  then show ?thesis
    by (intro exI [of _ "[]"] exI [of _ st]) (simp add: generateRootInterfaces_def)
next
  case False
  from generateRootInterfaces_fields_appends [of fs ts st] obtain lines st' where
    a: "list_all2 (\<lambda>(key, field) line. writeField [] field = Inr line) fs lines"
    and m: "marksWithin ts st st'"
    and b: "\<And>buffer. generateRootInterfaces_fields ts buffer fs st =
              Inr (buffer @ concat lines, st')"
    by blast
  from False have "generateRootInterfaces ts buffer fs rootName st =
         Inr (buffer @
                (if fs = [] then []
                 else ''export interface '' @ rootName @ '' {\<newline>'' @ concat lines @
                      ''}\<newline>\<newline>''), st')" for buffer
    by (simp add: generateRootInterfaces_def b)
  with a m show ?thesis by blast
qed

lemma generateTypescriptFile_types_appends:
  "\<exists>chunks st'.
      list_all2 (\<lambda>(key, typeInfo) chunk. generateTypeInterface [] typeInfo = Inr chunk) tys chunks \<and>
      marksWithin ts st st' \<and>
      (\<forall>buffer. generateTypescriptFile_types ts buffer tys st = Inr (buffer @ concat chunks, st'))"
proof (induction tys arbitrary: st)
  case Nil
  show ?case by (intro exI [of _ "[]"] exI [of _ st]) simp
next
  case (Cons kt tys)
  obtain key typeInfo where kt: "kt = (key, typeInfo)" by (cases kt)
  obtain chunk where t: "\<And>buffer. generateTypeInterface buffer typeInfo = Inr (buffer @ chunk)"
    using generateTypeInterface_appends by blast
  obtain st1 where r: "bufferFields ts (defFields (infoDefinition typeInfo)) st = Inr st1"
    and m1: "marksWithin ts st st1"
    using bufferRequestInterface_marksWithin(2) by blast
  from Cons.IH [of st1] obtain chunks st' where
    a: "list_all2 (\<lambda>(key, typeInfo) chunk. generateTypeInterface [] typeInfo = Inr chunk) tys chunks"
    and m2: "marksWithin ts st1 st'"
    and b: "\<And>buffer. generateTypescriptFile_types ts buffer tys st1 =
              Inr (buffer @ concat chunks, st')"
    by blast
  from t [of "[]"] a
  have "list_all2 (\<lambda>(key, typeInfo) chunk. generateTypeInterface [] typeInfo = Inr chunk)
          (kt # tys) (chunk # chunks)"
    by (simp add: kt)
  moreover from m1 m2 have "marksWithin ts st st'" by (rule marksWithin_trans)
  moreover have "generateTypescriptFile_types ts buffer (kt # tys) st =
                   Inr (buffer @ concat (chunk # chunks), st')" for buffer
    by (simp add: kt t r b)
  ultimately show ?case by blast
qed

lemma determineFieldType_eq:
  "determineFieldType ts s =
     (case extractCleanType s of
        Inl e \<Rightarrow> Inl e
      | Inr cleanType \<Rightarrow>
          Inr (if bracketed cleanType then
                 (if isObjectType ts (TrimSuffix (butlast (tl cleanType)) ''!'')
                  then ''Array<'' @ TrimSuffix (butlast (tl cleanType)) ''!'' @ ''Request>''
                  else ''Array<boolean | number>'')
               else if isObjectType ts cleanType then cleanType @ ''Request''
               else ''boolean | number''))"
  by (auto simp add: determineFieldType_def bracketed_def slice_bracketed Let_def
      split: sum.splits)

lemma determineFieldType_returns: "\<exists>t. determineFieldType ts s = Inr t"
  by (simp add: determineFieldType_eq extractCleanType_eq)

lemma generateRequestInterfaces_fields_step:
  assumes "determineFieldType ts (fieldType field) = Inr t"
  shows "generateRequestInterfaces_fields ts buffer (field # rest) =
           generateRequestInterfaces_fields ts (buffer @ requestFieldLine field t) rest"
  using assms by (simp add: Let_def requestFieldLine_def HasSuffix_bang)

lemma generateRequestInterfaces_fields_appends:
  "\<exists>chunk. \<forall>buffer. generateRequestInterfaces_fields ts buffer fs = Inr (buffer @ chunk)"
proof (induction fs)
  case Nil
  show ?case by simp
next
  case (Cons f fs)
  obtain t where t: "determineFieldType ts (fieldType f) = Inr t"
    using determineFieldType_returns by blast
  from Cons.IH obtain chunk where
    b: "\<And>buffer. generateRequestInterfaces_fields ts buffer fs = Inr (buffer @ chunk)"
    by blast
  have "generateRequestInterfaces_fields ts buffer (f # fs) =
          Inr (buffer @ (requestFieldLine f t @ chunk))" for buffer
    by (simp only: generateRequestInterfaces_fields_step [OF t] b append_assoc)
  then show ?case by blast
qed

lemma generateRequestInterfaces_appends:
  "\<exists>chunks.
      list_all2 (\<lambda>deferredType chunk. generateRequestInterfaces ts [] [deferredType] = Inr chunk)
        ds chunks \<and>
      (\<forall>buffer. generateRequestInterfaces ts buffer ds = Inr (buffer @ concat chunks))"
proof (induction ds)
  case Nil
  show ?case by simp
next
  case (Cons d ds)
  from Cons.IH obtain chunks where
    a: "list_all2 (\<lambda>deferredType chunk. generateRequestInterfaces ts [] [deferredType] = Inr chunk)
          ds chunks"
    and b: "\<And>buffer. generateRequestInterfaces ts buffer ds = Inr (buffer @ concat chunks)"
    by blast
  have "\<exists>chunk. \<forall>buffer. generateRequestInterfaces ts buffer [d] = Inr (buffer @ chunk) \<and>
          generateRequestInterfaces ts buffer (d # ds) =
            generateRequestInterfaces ts (buffer @ chunk) ds"
  proof (cases "map_of ts d")
    case None
    then have "\<forall>buffer. generateRequestInterfaces ts buffer [d] = Inr (buffer @ []) \<and>
          generateRequestInterfaces ts buffer (d # ds) =
            generateRequestInterfaces ts (buffer @ []) ds"
      by simp
    then show ?thesis by blast
  next
    case (Some typeInfo)
    obtain body where
      f: "\<And>buffer. generateRequestInterfaces_fields ts buffer (defFields (infoDefinition typeInfo)) =
            Inr (buffer @ body)"
      using generateRequestInterfaces_fields_appends by blast
    let ?chunk = "''export interface '' @ (d @ ''Request'') @ '' {\<newline>'' @ body @
                 ''}\<newline>\<newline>''"
    from Some have "\<forall>buffer. generateRequestInterfaces ts buffer [d] = Inr (buffer @ ?chunk) \<and>
          generateRequestInterfaces ts buffer (d # ds) =
            generateRequestInterfaces ts (buffer @ ?chunk) ds"
      by (simp add: Let_def f)
    then show ?thesis by blast
  qed
  then obtain chunk where
    t1: "\<And>buffer. generateRequestInterfaces ts buffer [d] = Inr (buffer @ chunk)"
    and t2: "\<And>buffer. generateRequestInterfaces ts buffer (d # ds) =
               generateRequestInterfaces ts (buffer @ chunk) ds"
    by blast
  from t1 [of "[]"] a
  have "list_all2 (\<lambda>deferredType chunk. generateRequestInterfaces ts [] [deferredType] = Inr chunk)
          (d # ds) (chunk # chunks)"
    by simp
  moreover have "generateRequestInterfaces ts buffer (d # ds) =
                   Inr (buffer @ concat (chunk # chunks))" for buffer
    by (simp only: t2 b concat.simps append_assoc)
  ultimately show ?case by blast
qed

lemma generateTypescriptFile_resolve_structure:
  "\<exists>typeChunks queryLines mutationLines d d'.
      list_all2 (\<lambda>(key, typeInfo) chunk. generateTypeInterface [] typeInfo = Inr chunk)
        (types g) typeChunks \<and>
      list_all2 (\<lambda>(key, field) line. writeField [] field = Inr line) (queries g) queryLines \<and>
      list_all2 (\<lambda>(key, field) line. writeField [] field = Inr line)
        (mutations g) mutationLines \<and>
      set d \<subseteq> fst ` set (types g) \<and> distinct d \<and>
      bufferMissingRequestInterfaces (types g) d = Inr d' \<and>
      generateTypescriptFile_resolve g =
        Inr (writeFileHeader [] @ generateEnums [] (enums g) @ concat typeChunks @
             (if queries g = [] then []
              else ''export interface Query {\<newline>'' @ concat queryLines @ ''}\<newline>\<newline>'') @
             (if mutations g = [] then []
              else ''export interface Mutation {\<newline>'' @ concat mutationLines @
                   ''}\<newline>\<newline>''),
             d')"
proof -
  let ?ts = "types g"
  obtain typeChunks st1 where
    a1: "list_all2 (\<lambda>(key, typeInfo) chunk. generateTypeInterface [] typeInfo = Inr chunk)
           ?ts typeChunks"
    and m1: "marksWithin ?ts ([], []) st1"
    and b1: "\<And>buffer. generateTypescriptFile_types ?ts buffer ?ts ([], []) =
               Inr (buffer @ concat typeChunks, st1)"
    using generateTypescriptFile_types_appends [of ?ts ?ts "([], [])"] by blast
  obtain queryLines st2 where
    a2: "list_all2 (\<lambda>(key, field) line. writeField [] field = Inr line) (queries g) queryLines"
    and m2: "marksWithin ?ts st1 st2"
    and b2: "\<And>buffer. generateRootInterfaces ?ts buffer (queries g) ''Query'' st1 =
               Inr (buffer @
                 (if queries g = [] then []
                  else ''export interface '' @ ''Query'' @ '' {\<newline>'' @ concat queryLines @
                       ''}\<newline>\<newline>''), st2)"
    using generateRootInterfaces_appends [of "queries g" ?ts st1 "''Query''"] by blast
  obtain mutationLines st3 where
    a3: "list_all2 (\<lambda>(key, field) line. writeField [] field = Inr line)
           (mutations g) mutationLines"
    and m3: "marksWithin ?ts st2 st3"
    and b3: "\<And>buffer. generateRootInterfaces ?ts buffer (mutations g) ''Mutation'' st2 =
               Inr (buffer @
                 (if mutations g = [] then []
                  else ''export interface '' @ ''Mutation'' @ '' {\<newline>'' @
                       concat mutationLines @ ''}\<newline>\<newline>''), st3)"
    using generateRootInterfaces_appends [of "mutations g" ?ts st2 "''Mutation''"] by blast
  obtain p d where st3: "st3 = (p, d)" by (cases st3)
  from m1 m2 m3 have "marksWithin ?ts ([], []) st3"
    by (blast intro: marksWithin_trans)
  then have d: "set d \<subseteq> fst ` set ?ts" "distinct d"
    by (auto simp: marksWithin_def st3)
  obtain d' where s: "bufferMissingRequestInterfaces ?ts d = Inr d'"
    using bufferMissingRequestInterfaces_loop_returns [of ?ts "map fst ?ts" d]
    by (auto simp: bufferMissingRequestInterfaces_def)
  have e: "generateEnums (writeFileHeader []) (enums g) =
           writeFileHeader [] @ generateEnums [] (enums g)"
    by (rule generateEnums_appends)
  have "generateTypescriptFile_resolve g =
        Inr (writeFileHeader [] @ generateEnums [] (enums g) @ concat typeChunks @
             (if queries g = [] then []
              else ''export interface Query {\<newline>'' @ concat queryLines @ ''}\<newline>\<newline>'') @
             (if mutations g = [] then []
              else ''export interface Mutation {\<newline>'' @ concat mutationLines @
                   ''}\<newline>\<newline>''),
             d')"
    unfolding generateTypescriptFile_resolve_def Let_def e b1
    by (simp add: b2 b3 st3 s)
  with a1 a2 a3 d s show ?thesis by blast
qed

lemma generateRequestInterfaces_single:
  assumes "map_of ts d = Some typeInfo"
  shows "\<exists>body. generateRequestInterfaces_fields ts [] (defFields (infoDefinition typeInfo)) = Inr body \<and>
           generateRequestInterfaces ts [] [d] =
             Inr (''export interface '' @ d @ ''Request {\<newline>'' @ body @ ''}\<newline>\<newline>'')"
proof -
  obtain body where
    f: "\<And>buffer. generateRequestInterfaces_fields ts buffer (defFields (infoDefinition typeInfo)) =
          Inr (buffer @ body)"
    using generateRequestInterfaces_fields_appends by blast
  from assms f [of "[]"]
       f [of "''export interface '' @ (d @ ''Request'') @ '' {\<newline>''"]
  show ?thesis by (simp add: Let_def)
qed

subsection \<open>Facts about the projection type\<close>

lemma TrimSuffix_marker:
  "\<not> HasSuffix s ''!'' \<Longrightarrow> TrimSuffix (s @ marker m) ''!'' = s"
  by (cases m) (simp_all add: marker_def TrimSuffix_id)

lemma not_HasSuffix_closing: "\<not> HasSuffix (x @ '']'') ''!''"
  using HasSuffix_snoc [of x "CHR '']''" "CHR ''!''"] by simp

lemma bracketed_list: "bracketed (''['' @ x @ '']'')"
  using HasSuffix_snoc [of "''['' @ x" "CHR '']''" "CHR '']''"]
  by (simp add: bracketed_def)

lemma inner_of_list: "butlast (tl (''['' @ x @ '']'')) = x"
  by (simp add: butlast_append)

lemma TrimSuffix_list_marker:
  "TrimSuffix (''['' @ x @ '']'' @ marker m) ''!'' = ''['' @ x @ '']''"
  using TrimSuffix_marker [of "''['' @ x @ '']''" m] not_HasSuffix_closing [of "''['' @ x"]
  by simp

lemma extractCleanType_plain_marker:
  assumes "plainName n"
  shows "extractCleanType (n @ marker m) = Inr n"
  using assms by (simp add: extractCleanType_eq TrimSuffix_marker plainName_def)

lemma extractCleanType_list:
  "extractCleanType (''['' @ x @ '']'' @ marker m) = Inr (TrimSuffix x ''!'')"
  by (simp only: extractCleanType_eq TrimSuffix_list_marker bracketed_list if_True inner_of_list)

lemma determineFieldType_plain:
  assumes "plainName n"
  shows "determineFieldType ts (n @ marker m) =
           Inr (if isObjectType ts n then n @ ''Request'' else ''boolean | number'')"
  using assms
  by (simp add: determineFieldType_eq extractCleanType_plain_marker plainName_def)

lemma determineFieldType_two_level:
  assumes "plainName n"
  shows "determineFieldType ts
           (''['' @ (''['' @ (n @ marker m1) @ '']'' @ marker m2) @ '']'' @ marker m3) =
           Inr (if isObjectType ts n then ''Array<'' @ n @ ''Request>''
                else ''Array<boolean | number>'')"
proof -
  from assms have n: "TrimSuffix (n @ marker m1) ''!'' = n"
    by (simp add: TrimSuffix_marker plainName_def)
  have "extractCleanType
          (''['' @ (''['' @ (n @ marker m1) @ '']'' @ marker m2) @ '']'' @ marker m3) =
        Inr (''['' @ (n @ marker m1) @ '']'')"
    by (simp only: extractCleanType_list TrimSuffix_list_marker)
  then show ?thesis
    by (simp only: determineFieldType_eq sum.case bracketed_list inner_of_list n if_True)
qed

lemma stripAllWrappers_plain:
  assumes "plainName n"
  shows "stripAllWrappers (n @ marker m) = n"
  using assms
  by (subst stripAllWrappers.simps) (simp add: TrimSuffix_marker plainName_def)

lemma stripAllWrappers_list:
  "stripAllWrappers (''['' @ x @ '']'' @ marker m) = stripAllWrappers x"
  by (subst stripAllWrappers.simps) (simp only: TrimSuffix_list_marker Let_def bracketed_list if_True inner_of_list)

lemma claimedRequestType_plain:
  assumes "plainName n"
  shows "claimedRequestType ts (n @ marker m) =
           (if isObjectType ts n then n @ ''Request'' else ''boolean | number'')"
  using assms
  by (simp add: claimedRequestType_def stripAllWrappers_plain TrimSuffix_marker plainName_def)

lemma claimedRequestType_two_level:
  assumes "plainName n"
  shows "claimedRequestType ts
           (''['' @ (''['' @ (n @ marker m1) @ '']'' @ marker m2) @ '']'' @ marker m3) =
           (if isObjectType ts n then ''Array<'' @ n @ ''Request>''
            else ''Array<boolean | number>'')"
proof -
  have "stripAllWrappers
          (''['' @ (''['' @ (n @ marker m1) @ '']'' @ marker m2) @ '']'' @ marker m3) = n"
    by (simp only: stripAllWrappers_list stripAllWrappers_plain [OF assms])
  then show ?thesis
    by (simp only: claimedRequestType_def Let_def TrimSuffix_list_marker bracketed_list if_True)
       simp
qed


lemma determineFieldType_deeper:
  assumes "list_all plainName (map fst ts)"
  shows "determineFieldType ts
           (''['' @ (''['' @ (''['' @ x @ '']'' @ marker m1) @ '']'' @ marker m2) @ '']'' @ marker m3) =
           Inr ''Array<boolean | number>''"
proof -
  let ?y = "''['' @ x @ '']''"
  have "\<not> isObjectType ts ?y"
  proof
    assume "isObjectType ts ?y"
    then have "?y \<in> fst ` set ts"
      by (auto simp: isObjectType_def split: option.splits dest: map_of_SomeD intro: rev_image_eqI)
    with assms have "plainName ?y" by (auto simp: list_all_iff)
    then show False by (simp only: plainName_def bracketed_list simp_thms)
  qed
  moreover have "extractCleanType
          (''['' @ (''['' @ (?y @ marker m1) @ '']'' @ marker m2) @ '']'' @ marker m3) =
        Inr (''['' @ (?y @ marker m1) @ '']'')"
    by (simp only: extractCleanType_list TrimSuffix_list_marker)
  moreover have "TrimSuffix (?y @ marker m1) ''!'' = ?y"
    using TrimSuffix_list_marker [of x m1] by simp
  ultimately have "determineFieldType ts
          (''['' @ (''['' @ (?y @ marker m1) @ '']'' @ marker m2) @ '']'' @ marker m3) =
       Inr ''Array<boolean | number>''"
    by (simp only: determineFieldType_eq sum.case bracketed_list inner_of_list if_True if_False)
  then show ?thesis by simp
qed

subsection \<open>The text written\<close>

lemma convertGraphqlTypeToTs_translatedType:
  "convertGraphqlTypeToTs ref = Inr (translatedType ref)"
  using convertGraphqlTypeToTs_returns [of ref] by (auto simp: translatedType_def)

lemma determineFieldType_projectedType:
  "determineFieldType ts ref = Inr (projectedType ts ref)"
  using determineFieldType_returns [of ts ref] by (auto simp: projectedType_def)

lemma writeField_text: "writeField buffer field = Inr (buffer @ dataFieldLine field)"
  by (simp add: writeField_def convertGraphqlTypeToTs_translatedType dataFieldLine_def
      HasSuffix_bang)

lemma generateTypeInterface_fields_text:
  "generateTypeInterface_fields buffer fs = Inr (buffer @ concat (map dataFieldLine fs))"
  by (induction fs arbitrary: buffer) (simp_all add: writeField_text)

lemma generateTypeInterface_text:
  "generateTypeInterface buffer typeInfo = Inr (buffer @ typeInterfaceText typeInfo)"
  by (simp add: generateTypeInterface_def generateTypeInterface_fields_text
      typeInterfaceText_def)

lemma list_all2_Inr_map:
  assumes "\<And>x. f x = Inr (h x)"
  shows "list_all2 (\<lambda>x y. f x = Inr y) xs ys \<Longrightarrow> ys = map h xs"
  by (induction xs ys rule: list_all2_induct) (simp_all add: assms)

lemma generateRequestInterfaces_fields_text:
  "generateRequestInterfaces_fields ts buffer fs =
     Inr (buffer @
          concat (map (\<lambda>field. requestFieldLine field (projectedType ts (fieldType field))) fs))"
proof (induction fs arbitrary: buffer)
  case Nil
  show ?case by simp
next
  case (Cons f fs)
  show ?case
    by (simp only: generateRequestInterfaces_fields_step [OF determineFieldType_projectedType]
        Cons.IH list.map concat.simps append_assoc)
qed

lemma generateRequestInterfaces_text:
  "generateRequestInterfaces ts buffer ds =
     Inr (buffer @ concat (map (requestInterfaceText ts) ds))"
proof (induction ds arbitrary: buffer)
  case Nil
  show ?case by simp
next
  case (Cons d ds)
  show ?case
  proof (cases "map_of ts d")
    case None
    then show ?thesis by (simp add: Cons.IH requestInterfaceText_def)
  next
    case (Some typeInfo)
    then show ?thesis
      by (simp add: Cons.IH requestInterfaceText_def generateRequestInterfaces_fields_text
          Let_def)
  qed
qed

lemma generateTypescriptFile_resolve_text:
  "\<exists>d d'.
      set d \<subseteq> fst ` set (types g) \<and> distinct d \<and>
      bufferMissingRequestInterfaces (types g) d = Inr d' \<and>
      generateTypescriptFile_resolve g =
        Inr (writeFileHeader [] @ generateEnums [] (enums g) @
             concat (map (\<lambda>(key, typeInfo). typeInterfaceText typeInfo) (types g)) @
             (if queries g = [] then []
              else ''export interface Query {\<newline>'' @
                   concat (map (\<lambda>(key, field). dataFieldLine field) (queries g)) @
                   ''}\<newline>\<newline>'') @
             (if mutations g = [] then []
              else ''export interface Mutation {\<newline>'' @
                   concat (map (\<lambda>(key, field). dataFieldLine field) (mutations g)) @
                   ''}\<newline>\<newline>''),
             d')"
proof -
  from generateTypescriptFile_resolve_structure [of g]
  obtain typeChunks queryLines mutationLines d d' where
    a1: "list_all2 (\<lambda>(key, typeInfo) chunk. generateTypeInterface [] typeInfo = Inr chunk)
           (types g) typeChunks"
    and a2: "list_all2 (\<lambda>(key, field) line. writeField [] field = Inr line)
           (queries g) queryLines"
    and a3: "list_all2 (\<lambda>(key, field) line. writeField [] field = Inr line)
           (mutations g) mutationLines"
    and d: "set d \<subseteq> fst ` set (types g)" "distinct d"
    and s: "bufferMissingRequestInterfaces (types g) d = Inr d'"
    and r: "generateTypescriptFile_resolve g =
        Inr (writeFileHeader [] @ generateEnums [] (enums g) @ concat typeChunks @
             (if queries g = [] then []
              else ''export interface Query {\<newline>'' @ concat queryLines @ ''}\<newline>\<newline>'') @
             (if mutations g = [] then []
              else ''export interface Mutation {\<newline>'' @ concat mutationLines @
                   ''}\<newline>\<newline>''),
             d')"
    by blast
  have t: "typeChunks = map (\<lambda>(key, typeInfo). typeInterfaceText typeInfo) (types g)"
  proof -
    from a1 have "list_all2 (\<lambda>x y. generateTypeInterface [] (snd x) = Inr y) (types g) typeChunks"
      by (simp add: case_prod_unfold)
    then have "typeChunks = map (\<lambda>x. typeInterfaceText (snd x)) (types g)"
      by (rule list_all2_Inr_map [rotated]) (simp add: generateTypeInterface_text)
    then show ?thesis by (simp add: case_prod_unfold)
  qed
  have lines: "ls = map (\<lambda>(key, field). dataFieldLine field) fs"
    if "list_all2 (\<lambda>(key, field) line. writeField [] field = Inr line) fs ls"
    for fs :: "(string \<times> FieldDefinition) list" and ls
  proof -
    from that have "list_all2 (\<lambda>x y. writeField [] (snd x) = Inr y) fs ls"
      by (simp add: case_prod_unfold)
    then have "ls = map (\<lambda>x. dataFieldLine (snd x)) fs"
      by (rule list_all2_Inr_map [rotated]) (simp add: writeField_text)
    then show ?thesis by (simp add: case_prod_unfold)
  qed
  note q = lines [OF a2] and m = lines [OF a3]
  from d s r [unfolded t q m] show ?thesis by blast
qed

lemma writeFileHeader_text:
  "writeFileHeader [] =
     ''/*\<newline>'' @
     '' * -------------------------------------------------------\<newline>'' @
     '' * THIS FILE WAS AUTOMATICALLY GENERATED (DO NOT MODIFY)\<newline>'' @
     '' * -------------------------------------------------------\<newline>'' @
     '' */\<newline>\<newline>'' @
     ''/* tslint:disable */\<newline>'' @
     ''/* eslint-disable */\<newline>\<newline>'' @
     ''type Nullable<T> = T | null;\<newline>\<newline>''"
  by (simp add: writeFileHeader_def)

lemma generateTypescriptFile_resolve_dataSectionsText:
  "\<exists>d d'.
      set d \<subseteq> fst ` set (types g) \<and> distinct d \<and>
      bufferMissingRequestInterfaces (types g) d = Inr d' \<and>
      generateTypescriptFile_resolve g = Inr (dataSectionsText g, d')"
proof -
  have "writeFileHeader [] @ generateEnums [] (enums g) @
             concat (map (\<lambda>(key, typeInfo). typeInterfaceText typeInfo) (types g)) @
             (if queries g = [] then []
              else ''export interface Query {\<newline>'' @
                   concat (map (\<lambda>(key, field). dataFieldLine field) (queries g)) @
                   ''}\<newline>\<newline>'') @
             (if mutations g = [] then []
              else ''export interface Mutation {\<newline>'' @
                   concat (map (\<lambda>(key, field). dataFieldLine field) (mutations g)) @
                   ''}\<newline>\<newline>'') = dataSectionsText g"
    unfolding dataSectionsText_def writeFileHeader_text generateEnums_text by simp
  with generateTypescriptFile_resolve_text [of g] show ?thesis by auto
qed

lemma generateTypescriptFile_text:
  "\<exists>deferredInterfaces.
      generateTypescriptFile_resolve g = Inr (dataSectionsText g, deferredInterfaces) \<and>
      distinct deferredInterfaces \<and>
      set deferredInterfaces \<subseteq> fst ` set (types g) \<and>
      generateTypescriptFile True g =
        Inr (dataSectionsText g @
             concat (map (requestInterfaceText (types g)) deferredInterfaces))"
proof -
  from generateTypescriptFile_resolve_dataSectionsText [of g] obtain d d' where
    d: "set d \<subseteq> fst ` set (types g)" "distinct d"
    and s: "bufferMissingRequestInterfaces (types g) d = Inr d'"
    and r: "generateTypescriptFile_resolve g = Inr (dataSectionsText g, d')"
    by blast
  from bufferMissingRequestInterfaces_loop_returns [of "types g" "map fst (types g)" d] s d
  have "distinct d'" and "set d' \<subseteq> fst ` set (types g)"
    by (auto simp: bufferMissingRequestInterfaces_def)
  moreover from r have "generateTypescriptFile True g =
        Inr (dataSectionsText g @ concat (map (requestInterfaceText (types g)) d'))"
    by (simp add: generateTypescriptFile_def generateRequestInterfaces_text)
  ultimately show ?thesis using r by blast
qed

lemma generateTypescriptFile_text_complete:
  assumes "list_all plainName (map fst (types g))"
  shows "\<exists>deferredInterfaces.
      generateTypescriptFile_resolve g = Inr (dataSectionsText g, deferredInterfaces) \<and>
      distinct deferredInterfaces \<and>
      set deferredInterfaces = fst ` set (types g) \<and>
      generateTypescriptFile True g =
        Inr (dataSectionsText g @
             concat (map (requestInterfaceText (types g)) deferredInterfaces))"
proof -
  from generateTypescriptFile_resolve_dataSectionsText [of g] obtain d d' where
    d: "set d \<subseteq> fst ` set (types g)" "distinct d"
    and s: "bufferMissingRequestInterfaces (types g) d = Inr d'"
    and r: "generateTypescriptFile_resolve g = Inr (dataSectionsText g, d')"
    by blast
  from bufferMissingRequestInterfaces_complete [OF assms d] s
  have "set d' = fst ` set (types g)" and "distinct d'" by auto
  moreover from r have "generateTypescriptFile True g =
        Inr (dataSectionsText g @ concat (map (requestInterfaceText (types g)) d'))"
    by (simp add: generateTypescriptFile_def generateRequestInterfaces_text)
  ultimately show ?thesis using r by blast
qed

lemma requestInterfaceText_registered:
  assumes "set ds \<subseteq> fst ` set ts"
  shows "list_all2
     (\<lambda>deferredType chunk. \<exists>typeInfo.
         map_of ts deferredType = Some typeInfo \<and>
         chunk =
           ''export interface '' @ deferredType @ ''Request {\<newline>'' @
           concat (map (\<lambda>field. requestFieldLine field (projectedType ts (fieldType field)))
                     (defFields (infoDefinition typeInfo))) @
           ''}\<newline>\<newline>'')
     ds (map (requestInterfaceText ts) ds)"
  using assms
proof (induction ds)
  case Nil
  show ?case by simp
next
  case (Cons d ds)
  from Cons.prems obtain typeInfo where "map_of ts d = Some typeInfo"
    by (metis list.set_intros(1) map_of_eq_None_iff not_None_eq subsetD)
  with Cons show ?case by (simp add: requestInterfaceText_def)
qed


lemma determineFieldType_one_level:
  assumes "plainName n"
  shows "determineFieldType ts (''['' @ (n @ marker m1) @ '']'' @ marker m2) =
           Inr (if isObjectType ts n then n @ ''Request'' else ''boolean | number'')"
proof -
  from assms have n: "TrimSuffix (n @ marker m1) ''!'' = n" and b: "\<not> bracketed n"
    by (simp_all add: TrimSuffix_marker plainName_def)
  have "extractCleanType (''['' @ (n @ marker m1) @ '']'' @ marker m2) = Inr n"
    by (simp only: extractCleanType_list n)
  then show ?thesis
    by (simp only: determineFieldType_eq sum.case b if_False)
qed

lemma claimedRequestType_one_level:
  assumes "plainName n"
  shows "claimedRequestType ts (''['' @ (n @ marker m1) @ '']'' @ marker m2) =
           ''Array<'' @ (if isObjectType ts n then n @ ''Request'' else ''boolean | number'') @
           ''>''"
proof -
  have "stripAllWrappers (''['' @ (n @ marker m1) @ '']'' @ marker m2) = n"
    by (simp only: stripAllWrappers_list stripAllWrappers_plain [OF assms])
  then show ?thesis
    by (simp only: claimedRequestType_def Let_def TrimSuffix_list_marker bracketed_list if_True)
qed


lemma requestFieldLine_text:
  "requestFieldLine field t =
     ''  '' @ fieldName field @
     (if fieldType field \<noteq> [] \<and> last (fieldType field) = CHR ''!''
      then '': '' else ''?: '') @
     t @ '';\<newline>''"
  by (simp add: requestFieldLine_def)

section \<open>The claims\<close>

subsection \<open>Type reference translator\<close>

text \<open>
  C6. The translator is total: on every string, well-formed or not, the recursion of
  \<^const>\<open>convertGraphqlTypeToTs\<close> ends (the string lies in the accessible part of its call
  relation) and it returns an expression, never the panic of its slice expression. The
  nullability decision of the data interfaces looks at the whole reference only: the field
  is written \<open>name: T;\<close> if and only if the reference ends with the marker \<open>!\<close>, and
  \<open>name?: Nullable<T>;\<close> otherwise.
\<close>

theorem convertGraphqlTypeToTs_total:
  "convertGraphqlTypeToTs_dom ref \<and>
   (\<exists>expr. convertGraphqlTypeToTs ref = Inr expr \<and>
      writeField buffer \<lparr>fieldName = name, fieldType = ref\<rparr> =
        Inr (if ref \<noteq> [] \<and> last ref = CHR ''!''
             then buffer @ ''  '' @ name @ '': '' @ expr @ '';\<newline>''
             else buffer @ ''  '' @ name @ ''?: Nullable<'' @ expr @ ''>;\<newline>''))"
proof -
  obtain expr where e: "convertGraphqlTypeToTs ref = Inr expr"
    using convertGraphqlTypeToTs_returns by blast
  have "writeField buffer \<lparr>fieldName = name, fieldType = ref\<rparr> =
        Inr (if ref \<noteq> [] \<and> last ref = CHR ''!''
             then buffer @ ''  '' @ name @ '': '' @ expr @ '';\<newline>''
             else buffer @ ''  '' @ name @ ''?: Nullable<'' @ expr @ ''>;\<newline>'')"
    by (simp add: writeField_def e HasSuffix_bang)
  with e show ?thesis
    using convertGraphqlTypeToTs_dom_all by blast
qed

text \<open>
  C9. The reference \<open>[[String!]]!\<close> translates to \<open>Array<Array<string>>\<close>, and a field of
  that type is written as non-nullable.
\<close>

theorem convertGraphqlTypeToTs_nested_list:
  "convertGraphqlTypeToTs ''[[String!]]!'' = Inr ''Array<Array<string>>'' \<and>
   HasSuffix ''[[String!]]!'' ''!'' \<and>
   writeField [] \<lparr>fieldName = ''tags'', fieldType = ''[[String!]]!''\<rparr> =
     Inr ''  tags: Array<Array<string>>;\<newline>''"
proof -
  have c: "convertGraphqlTypeToTs ''[[String!]]!'' = Inr ''Array<Array<string>>''"
    by (simp add: convertGraphqlTypeToTs.simps TrimSuffix_def HasSuffix_def HasPrefix_def
        slice_def scalarToTs_def)
  have s: "HasSuffix ''[[String!]]!'' ''!''"
    by (simp add: HasSuffix_def)
  show ?thesis
    by (simp add: writeField_def c s)
qed

text \<open>
  C10. The marker of a list's element cannot be seen in the translation: for an element
  type text \<open>T\<close> (which, carrying no marker of its own, does not end with \<open>!\<close>), the lists
  \<open>[T!]\<close> and \<open>[T]\<close> translate to the same expression, \<open>Array<\<close> followed by the translation
  of \<open>T\<close> and \<open>>\<close> with no \<open>Nullable\<close> wrapper in between, and both are nullable at the
  top.
\<close>

theorem element_marker_unobservable:
  assumes "\<not> HasSuffix T ''!''"
  shows "\<exists>expr. convertGraphqlTypeToTs T = Inr expr \<and>
           convertGraphqlTypeToTs (''['' @ T @ ''!]'') = Inr (''Array<'' @ expr @ ''>'') \<and>
           convertGraphqlTypeToTs (''['' @ T @ '']'') = Inr (''Array<'' @ expr @ ''>'') \<and>
           \<not> HasSuffix (''['' @ T @ ''!]'') ''!'' \<and>
           \<not> HasSuffix (''['' @ T @ '']'') ''!''"
proof -
  obtain expr where e: "convertGraphqlTypeToTs T = Inr expr"
    using convertGraphqlTypeToTs_returns by blast
  have m: "convertGraphqlTypeToTs (T @ ''!'') = Inr expr"
    using assms e by (simp add: convertGraphqlTypeToTs_marker)
  have "convertGraphqlTypeToTs (''['' @ (T @ ''!'') @ '']'') = Inr (''Array<'' @ expr @ ''>'')"
    by (simp only: convertGraphqlTypeToTs_list m sum.case)
  then have 1: "convertGraphqlTypeToTs (''['' @ T @ ''!]'') = Inr (''Array<'' @ expr @ ''>'')"
    by simp
  have 2: "convertGraphqlTypeToTs (''['' @ T @ '']'') = Inr (''Array<'' @ expr @ ''>'')"
    by (simp only: convertGraphqlTypeToTs_list e sum.case)
  have 3: "\<not> HasSuffix (''['' @ T @ ''!]'') ''!''"
    using HasSuffix_snoc [of "''['' @ T @ ''!''" "CHR '']''" "CHR ''!''"] by simp
  have 4: "\<not> HasSuffix (''['' @ T @ '']'') ''!''"
    using HasSuffix_snoc [of "''['' @ T" "CHR '']''" "CHR ''!''"] by simp
  from e 1 2 3 4 show ?thesis by blast
qed

theorem element_marker_unobservable_witness:
  "\<not> HasSuffix ''String'' ''!'' \<and>
   (\<exists>expr. convertGraphqlTypeToTs ''String'' = Inr expr \<and>
      convertGraphqlTypeToTs ''[String!]'' = Inr (''Array<'' @ expr @ ''>'') \<and>
      convertGraphqlTypeToTs ''[String]'' = Inr (''Array<'' @ expr @ ''>'') \<and>
      \<not> HasSuffix ''[String!]'' ''!'' \<and>
      \<not> HasSuffix ''[String]'' ''!'')"
proof -
  have h: "\<not> HasSuffix ''String'' ''!''" by (simp add: HasSuffix_def)
  from element_marker_unobservable [OF h] h show ?thesis by simp
qed

subsection \<open>Schema registry\<close>

text \<open>
  C3. Adding a definition whose name is already registered. With \<open>skipChecks\<close> off the
  result is the conflict error exactly when the two definitions differ under the
  positional comparison: the field counts differ, or at some position the field names or
  the raw type strings differ. Otherwise, and always with \<open>skipChecks\<close> on, there is no
  error and the registry is unchanged, so the definition seen first is kept.
\<close>

theorem addTypeOrInterface_conflict:
  assumes "map_of (types g) (defName def) = Some existing"
  shows "addTypeOrInterface g def =
     (if \<not> skipChecks g \<and>
         (length (defFields (infoDefinition existing)) \<noteq> length (defFields def) \<or>
          (\<exists>i < length (defFields def).
             fieldName (defFields (infoDefinition existing) ! i) \<noteq> fieldName (defFields def ! i) \<or>
             fieldType (defFields (infoDefinition existing) ! i) \<noteq> fieldType (defFields def ! i)))
      then Inl (ConflictingType (defName def))
      else Inr g)"
  using assms by (auto simp add: addTypeOrInterface_def compareDefinitions_eq)

theorem addTypeOrInterface_conflict_witness:
  "map_of (types (fooRegistry False)) (defName fooInt) =
      Some \<lparr>infoName = ''Foo'', infoDefinition = fooString\<rparr> \<and>
   addTypeOrInterface (fooRegistry False) fooInt = Inl (ConflictingType ''Foo'') \<and>
   addTypeOrInterface (fooRegistry False) fooString = Inr (fooRegistry False) \<and>
   addTypeOrInterface (fooRegistry True) fooInt = Inr (fooRegistry True)"
proof -
  have h: "map_of (types (fooRegistry s)) (defName fooInt) =
      Some \<lparr>infoName = ''Foo'', infoDefinition = fooString\<rparr>" for s
    by (simp add: fooRegistry_def fooInt_def)
  have h': "map_of (types (fooRegistry s)) (defName fooString) =
      Some \<lparr>infoName = ''Foo'', infoDefinition = fooString\<rparr>" for s
    by (simp add: fooRegistry_def fooString_def)
  from addTypeOrInterface_conflict [OF h [of False]]
       addTypeOrInterface_conflict [OF h' [of False]]
       addTypeOrInterface_conflict [OF h [of True]] h [of False]
  show ?thesis
    by (simp add: fooRegistry_def fooInt_def fooString_def)
qed

subsection \<open>Aggregator\<close>

text \<open>
  C7. Root fields are stored by name with no conflict check. Storing a field puts it under
  its name whatever was there. After any sequence of files that is ingested without error,
  the entry of \<open>queries\<close> (of \<open>mutations\<close>) for a name is the last field of that name among
  the \<open>Query\<close> (\<open>Mutation\<close>) definitions of all files, in ingestion order, and the entry
  held before if there is none. A \<open>Query\<close> or \<open>Mutation\<close> definition never makes
  \<^const>\<open>processType\<close> fail, whatever the registry holds.
\<close>

theorem root_fields_last_writer_wins:
  "map_of (storeFields [field] m) = (map_of m)(fieldName field \<mapsto> field) \<and>
   (processSchemaFiles g files = Inr g' \<longrightarrow>
      map_of (queries g') n =
        lastWriter n (rootFieldsOf ''Query'' (concat (map typesOf files))) (queries g) \<and>
      map_of (mutations g') n =
        lastWriter n (rootFieldsOf ''Mutation'' (concat (map typesOf files))) (mutations g)) \<and>
   (isRoot ''Query'' typ \<or> isRoot ''Mutation'' typ \<longrightarrow>
      (\<exists>g1. processType g typ = Inr g1))"
proof (intro conjI impI)
  show "map_of (storeFields [field] m) = (map_of m)(fieldName field \<mapsto> field)"
    by (simp add: update_conv')
next
  assume "processSchemaFiles g files = Inr g'"
  then show "map_of (queries g') n =
      lastWriter n (rootFieldsOf ''Query'' (concat (map typesOf files))) (queries g)"
    by (rule processSchemaFiles_queries)
next
  assume "processSchemaFiles g files = Inr g'"
  then show "map_of (mutations g') n =
      lastWriter n (rootFieldsOf ''Mutation'' (concat (map typesOf files))) (mutations g)"
    by (rule processSchemaFiles_mutations)
next
  assume "isRoot ''Query'' typ \<or> isRoot ''Mutation'' typ"
  then show "\<exists>g1. processType g typ = Inr g1"
    using processType_root_returns by blast
qed

theorem root_fields_last_writer_wins_witness:
  "processSchemaFiles (emptyGlobals False) [Schema [queryString], Schema [queryInt]] =
     Inr ((emptyGlobals False)
            \<lparr>queries := [(''a'', \<lparr>fieldName = ''a'', fieldType = ''Int''\<rparr>)]\<rparr>) \<and>
   lastWriter ''a''
     (rootFieldsOf ''Query'' (concat (map typesOf [Schema [queryString], Schema [queryInt]])))
     (queries (emptyGlobals False)) = Some \<lparr>fieldName = ''a'', fieldType = ''Int''\<rparr> \<and>
   isRoot ''Query'' queryInt \<and>
   (\<exists>g1. processType
           ((emptyGlobals False)
              \<lparr>queries := [(''a'', \<lparr>fieldName = ''a'', fieldType = ''String''\<rparr>)]\<rparr>)
           queryInt = Inr g1)"
proof -
  let ?files = "[Schema [queryString], Schema [queryInt]]"
  let ?g' = "(emptyGlobals False)
               \<lparr>queries := [(''a'', \<lparr>fieldName = ''a'', fieldType = ''Int''\<rparr>)]\<rparr>"
  let ?g1 = "(emptyGlobals False)
               \<lparr>queries := [(''a'', \<lparr>fieldName = ''a'', fieldType = ''String''\<rparr>)]\<rparr>"
  have run: "processSchemaFiles (emptyGlobals False) ?files = Inr ?g'"
    by (simp add: processSchemaFile_def processType_def queryString_def queryInt_def
        emptyGlobals_def)
  have root: "isRoot ''Query'' queryInt"
    by (simp add: isRoot_def queryInt_def)
  from root_fields_last_writer_wins
         [of _ _ "emptyGlobals False" ?files ?g' "''a''" queryInt]
  have 1: "lastWriter ''a'' (rootFieldsOf ''Query'' (concat (map typesOf ?files)))
             (queries (emptyGlobals False)) = map_of (queries ?g') ''a''"
    using run by simp
  from root_fields_last_writer_wins [of _ _ ?g1 _ _ _ queryInt] root
  have 2: "\<exists>g1. processType ?g1 queryInt = Inr g1"
    by blast
  from run 1 root 2 show ?thesis by simp
qed

subsection \<open>Request-shape resolver\<close>

text \<open>
  C4. The expansion terminates on every registry, cyclic or not: every argument of
  \<^const>\<open>bufferRequestInterface\<close> lies in the accessible part of the call relation, and the
  call returns a state, not a failure. The name it was called for is then marked in
  \<open>processedTypes\<close>, marks are only added, and a second call for the same reference on
  the state returned changes nothing: a name is expanded at most once. The whole
  resolution returns as well, with no name twice in \<open>deferredInterfaces\<close>. For the schema
  \<open>type Node { parent: Node }\<close> the expansion from \<open>Node\<close> ends with \<open>Node\<close> as the one
  entry of \<open>deferredInterfaces\<close>, and so does the whole resolution; for two types that
  refer to each other it ends with both, each once.
\<close>

theorem bufferRequestInterface_terminates:
  "bufferRequestInterface_bufferFields_dom (Inl (ts, returnType, (p, d))) \<and>
   (\<exists>p' d' c.
      bufferRequestInterface ts returnType (p, d) = Inr (p', d') \<and>
      extractCleanType returnType = Inr c \<and> c \<in> set p' \<and>
      set p \<subseteq> set p' \<and> set d \<subseteq> set d' \<and>
      bufferRequestInterface ts returnType (p', d') = Inr (p', d')) \<and>
   (\<exists>buffer deferredInterfaces.
      generateTypescriptFile_resolve g = Inr (buffer, deferredInterfaces) \<and>
      distinct deferredInterfaces) \<and>
   bufferRequestInterface (types nodeGlobals) ''Node'' ([], []) = Inr ([''Node''], [''Node'']) \<and>
   (\<exists>buffer. generateTypescriptFile_resolve nodeGlobals = Inr (buffer, [''Node''])) \<and>
   bufferRequestInterface (types mutualGlobals) ''Author'' ([], []) =
     Inr ([''Author'', ''Book''], [''Author'', ''Book''])"
proof (intro conjI)
  show "bufferRequestInterface_bufferFields_dom (Inl (ts, returnType, (p, d)))"
    using bufferRequestInterface_bufferFields_dom_all by blast
next
  obtain p' d' where r: "bufferRequestInterface ts returnType (p, d) = Inr (p', d')"
    and m: "marksWithin ts (p, d) (p', d')"
    by (rule bufferRequestInterface_Inr)
  obtain c where c: "extractCleanType returnType = Inr c"
    using extractCleanType_returns by blast
  from bufferRequestInterface_marks [OF r c] have in': "c \<in> set p'" by simp
  from m have "set p \<subseteq> set p'" and "set d \<subseteq> set d'"
    by (auto simp: marksWithin_def)
  moreover from c in' have "bufferRequestInterface ts returnType (p', d') = Inr (p', d')"
    by (rule bufferRequestInterface_guard)
  ultimately show "\<exists>p' d' c.
      bufferRequestInterface ts returnType (p, d) = Inr (p', d') \<and>
      extractCleanType returnType = Inr c \<and> c \<in> set p' \<and>
      set p \<subseteq> set p' \<and> set d \<subseteq> set d' \<and>
      bufferRequestInterface ts returnType (p', d') = Inr (p', d')"
    using r c in' by blast
next
  from generateTypescriptFile_resolve_structure [of g] obtain buffer d d' where
    d: "distinct d"
    and s: "bufferMissingRequestInterfaces (types g) d = Inr d'"
    and r: "generateTypescriptFile_resolve g = Inr (buffer, d')"
    by blast
  from bufferMissingRequestInterfaces_loop_returns [of "types g" "map fst (types g)" d] s d
  have "distinct d'"
    by (auto simp: bufferMissingRequestInterfaces_def)
  with r show "\<exists>buffer deferredInterfaces.
      generateTypescriptFile_resolve g = Inr (buffer, deferredInterfaces) \<and>
      distinct deferredInterfaces"
    by blast
next
  have e: "extractCleanType ''Node'' = Inr ''Node''"
    by (simp add: extractCleanType_def TrimSuffix_def HasSuffix_def HasPrefix_def)
  show "bufferRequestInterface (types nodeGlobals) ''Node'' ([], []) =
          Inr ([''Node''], [''Node''])"
    by (simp add: bufferRequestInterface.simps e nodeGlobals_def setTrue_def
        isObjectOrArrayOfObjects_def)
next
  show "\<exists>buffer. generateTypescriptFile_resolve nodeGlobals = Inr (buffer, [''Node''])"
    by (simp add: generateTypescriptFile_resolve_def nodeGlobals_def generateTypeInterface_def
        writeField_def convertGraphqlTypeToTs.simps TrimSuffix_def HasSuffix_def HasPrefix_def
        scalarToTs_def isObjectOrArrayOfObjects_def extractCleanType_def
        bufferRequestInterface.simps setTrue_def generateRootInterfaces_def
        bufferMissingRequestInterfaces_def)
next
  show "bufferRequestInterface (types mutualGlobals) ''Author'' ([], []) =
          Inr ([''Author'', ''Book''], [''Author'', ''Book''])"
    by (simp add: bufferRequestInterface.simps mutualGlobals_def setTrue_def
        isObjectOrArrayOfObjects_def extractCleanType_def TrimSuffix_def HasSuffix_def
        HasPrefix_def slice_def)
qed

text \<open>
  C5. When \<^verbatim>\<open>generateRequestInterfaces\<close> is called, \<open>deferredInterfaces\<close> holds every
  registered type name and nothing else, each once, reachable from a root or a field or
  not. The output is then the data sections followed by exactly one request interface
  for each of these names: its header, one line for each field of the type, its footer,
  and nothing else. The names of the registry are names as the parser gives them: none
  ends with \<open>!\<close> and none is wrapped in brackets.
\<close>

theorem every_type_gets_one_request_interface:
  assumes "list_all plainName (map fst (types g))"
  shows "\<exists>deferredInterfaces requestChunks.
      generateTypescriptFile_resolve g = Inr (dataSectionsText g, deferredInterfaces) \<and>
      distinct deferredInterfaces \<and>
      set deferredInterfaces = fst ` set (types g) \<and>
      list_all2
        (\<lambda>deferredType chunk. \<exists>typeInfo.
            map_of (types g) deferredType = Some typeInfo \<and>
            chunk =
              ''export interface '' @ deferredType @ ''Request {\<newline>'' @
              concat (map (\<lambda>field.
                        ''  '' @ fieldName field @
                        (if fieldType field \<noteq> [] \<and> last (fieldType field) = CHR ''!''
                         then '': '' else ''?: '') @
                        projectedType (types g) (fieldType field) @ '';\<newline>'')
                      (defFields (infoDefinition typeInfo))) @
              ''}\<newline>\<newline>'')
        deferredInterfaces requestChunks \<and>
      generateTypescriptFile True g = Inr (dataSectionsText g @ concat requestChunks)"
proof -
  from generateTypescriptFile_text_complete [OF assms] obtain ds where
    r: "generateTypescriptFile_resolve g = Inr (dataSectionsText g, ds)"
    and d: "distinct ds" "set ds = fst ` set (types g)"
    and out: "generateTypescriptFile True g =
        Inr (dataSectionsText g @ concat (map (requestInterfaceText (types g)) ds))"
    by blast
  from d(2) have "set ds \<subseteq> fst ` set (types g)" by simp
  from requestInterfaceText_registered [OF this, unfolded requestFieldLine_text] r d out
  show ?thesis by blast
qed

theorem every_type_gets_one_request_interface_witness:
  "list_all plainName (map fst (types orphanGlobals)) \<and>
   generateTypescriptFile_resolve orphanGlobals =
     Inr (dataSectionsText orphanGlobals, [''User'', ''Orphan'']) \<and>
   (\<exists>requestChunks.
      distinct [''User'', ''Orphan''] \<and>
      set [''User'', ''Orphan''] = fst ` set (types orphanGlobals) \<and>
      list_all2
        (\<lambda>deferredType chunk. \<exists>typeInfo.
            map_of (types orphanGlobals) deferredType = Some typeInfo \<and>
            chunk =
              ''export interface '' @ deferredType @ ''Request {\<newline>'' @
              concat (map (\<lambda>field.
                        ''  '' @ fieldName field @
                        (if fieldType field \<noteq> [] \<and> last (fieldType field) = CHR ''!''
                         then '': '' else ''?: '') @
                        projectedType (types orphanGlobals) (fieldType field) @ '';\<newline>'')
                      (defFields (infoDefinition typeInfo))) @
              ''}\<newline>\<newline>'')
        [''User'', ''Orphan''] requestChunks \<and>
      generateTypescriptFile True orphanGlobals =
        Inr (dataSectionsText orphanGlobals @ concat requestChunks)) \<and>
   generateRequestInterfaces (types orphanGlobals) [] [''User'', ''Orphan''] =
     Inr (''export interface UserRequest {\<newline>  id: boolean | number;\<newline>}\<newline>\<newline>'' @
          ''export interface OrphanRequest {\<newline>  tag?: boolean | number;\<newline>}\<newline>\<newline>'')"
proof -
  have h: "list_all plainName (map fst (types orphanGlobals))"
    by (simp add: orphanGlobals_def plainName_def bracketed_def HasSuffix_def HasPrefix_def)
  have "\<exists>buffer. generateTypescriptFile_resolve orphanGlobals = Inr (buffer, [''User'', ''Orphan''])"
    by (simp add: generateTypescriptFile_resolve_def orphanGlobals_def generateTypeInterface_def
        writeField_def convertGraphqlTypeToTs.simps TrimSuffix_def HasSuffix_def HasPrefix_def
        scalarToTs_def isObjectOrArrayOfObjects_def extractCleanType_def
        bufferRequestInterface.simps setTrue_def generateRootInterfaces_def
        bufferMissingRequestInterfaces_def)
  moreover have "generateRequestInterfaces (types orphanGlobals) [] [''User'', ''Orphan''] =
     Inr (''export interface UserRequest {\<newline>  id: boolean | number;\<newline>}\<newline>\<newline>'' @
          ''export interface OrphanRequest {\<newline>  tag?: boolean | number;\<newline>}\<newline>\<newline>'')"
    by (simp add: orphanGlobals_def determineFieldType_def extractCleanType_def TrimSuffix_def
        HasSuffix_def HasPrefix_def isObjectType_def)
  ultimately show ?thesis
    using every_type_gets_one_request_interface [OF h] h by fastforce
qed




text \<open>
  C2. The claim is what the program sets out to do, and the program misses it.
  \<^const>\<open>determineFieldType\<close> has a branch that wraps the projection type of a list in
  \<open>Array<...>\<close>, but it tests for brackets on what \<^const>\<open>extractCleanType\<close> returns, which
  has lost one bracket level already. So for a list of one level the branch is not
  reached and the type of the element comes out unwrapped: with \<open>User\<close> registered,
  \<open>[User!]!\<close> gets \<open>UserRequest\<close> where the claim has \<open>Array<UserRequest>\<close>, and \<open>[String]\<close>
  gets \<open>boolean | number\<close> where the claim has \<open>Array<boolean | number>\<close>; the request
  interface of \<open>type User { id: ID! friends: [User!]! }\<close> has the line
  \<open>friends: UserRequest;\<close>. The same stripping, done twice and not to the end, loses the
  name at three levels: \<open>[[[User]]]\<close> gets \<open>Array<boolean | number>\<close> where the claim has
  \<open>Array<UserRequest>\<close>.
\<close>

theorem determineFieldType_list_unwrapped:
  "isObjectType (types userGlobals) ''User'' \<and>
   determineFieldType (types userGlobals) ''[User!]!'' = Inr ''UserRequest'' \<and>
   claimedRequestType (types userGlobals) ''[User!]!'' = ''Array<UserRequest>'' \<and>
   determineFieldType (types userGlobals) ''[String]'' = Inr ''boolean | number'' \<and>
   claimedRequestType (types userGlobals) ''[String]'' = ''Array<boolean | number>'' \<and>
   generateRequestInterfaces (types userGlobals) [] [''User''] =
     Inr (''export interface UserRequest {\<newline>'' @
          ''  id: boolean | number;\<newline>'' @
          ''  friends: UserRequest;\<newline>'' @
          ''}\<newline>\<newline>'') \<and>
   stripAllWrappers ''[[[User]]]'' = ''User'' \<and>
   determineFieldType (types userGlobals) ''[[[User]]]'' = Inr ''Array<boolean | number>'' \<and>
   claimedRequestType (types userGlobals) ''[[[User]]]'' = ''Array<UserRequest>''"
  by (simp add: userGlobals_def isObjectType_def determineFieldType_def extractCleanType_def
      TrimSuffix_def HasSuffix_def HasPrefix_def slice_def claimedRequestType_def
      stripAllWrappers.simps bracketed_def)

text \<open>
  The same for every list of one level of a plain name, registered or not: the program
  returns the projection type of the element, the specification's wording that type
  wrapped in \<open>Array<...>\<close>.
\<close>

lemma determineFieldType_one_level_differs:
  assumes "plainName n"
  shows "determineFieldType ts (''['' @ (n @ marker m1) @ '']'' @ marker m2) \<noteq>
           Inr (claimedRequestType ts (''['' @ (n @ marker m1) @ '']'' @ marker m2))"
  by (simp only: determineFieldType_one_level [OF assms] claimedRequestType_one_level [OF assms])
     (simp split: if_splits)

subsection \<open>Emitter\<close>

text \<open>
  C8. The text handed to the file is, in this order and with nothing else: the fixed
  header with the \<open>Nullable\<close> alias; one enum declaration for each registered enum; one
  interface for each registered type, its header, one line for each of its fields and
  its footer; the \<open>Query\<close> interface, present exactly when \<open>queries\<close> is not empty, with
  one line for each of its fields; the \<open>Mutation\<close> interface, likewise; and one request
  interface for each entry of \<open>deferredInterfaces\<close>, its header, one line for each field
  of the type and its footer.
\<close>

theorem generateTypescriptFile_sections:
  "\<exists>deferredInterfaces.
      generateTypescriptFile_resolve g = Inr (dataSectionsText g, deferredInterfaces) \<and>
      set deferredInterfaces \<subseteq> fst ` set (types g) \<and>
      generateTypescriptFile True g =
        Inr (''/*\<newline>'' @
             '' * -------------------------------------------------------\<newline>'' @
             '' * THIS FILE WAS AUTOMATICALLY GENERATED (DO NOT MODIFY)\<newline>'' @
             '' * -------------------------------------------------------\<newline>'' @
             '' */\<newline>\<newline>'' @
             ''/* tslint:disable */\<newline>'' @
             ''/* eslint-disable */\<newline>\<newline>'' @
             ''type Nullable<T> = T | null;\<newline>\<newline>'' @
             concat (map (\<lambda>(key, enum).
                ''export enum '' @ defName enum @ '' {\<newline>'' @
                concat (map (\<lambda>v. ''  '' @ v @ '' = '' @ [CHR 0x27] @ v @ [CHR 0x27] @
                                  '',\<newline>'')
                          (defEnumValues enum)) @
                ''}\<newline>\<newline>'') (enums g)) @
             concat (map (\<lambda>(key, typeInfo).
                (if defKind (infoDefinition typeInfo) = Object \<or>
                    defKind (infoDefinition typeInfo) = Interface
                 then ''export interface '' @ infoName typeInfo @ '' {\<newline>'' else []) @
                concat (map dataFieldLine (defFields (infoDefinition typeInfo))) @
                ''}\<newline>\<newline>'') (types g)) @
             (if queries g = [] then []
              else ''export interface Query {\<newline>'' @
                   concat (map (\<lambda>(key, field). dataFieldLine field) (queries g)) @
                   ''}\<newline>\<newline>'') @
             (if mutations g = [] then []
              else ''export interface Mutation {\<newline>'' @
                   concat (map (\<lambda>(key, field). dataFieldLine field) (mutations g)) @
                   ''}\<newline>\<newline>'') @
             concat (map (\<lambda>deferredType.
                case map_of (types g) deferredType of
                  None \<Rightarrow> []
                | Some typeInfo \<Rightarrow>
                    ''export interface '' @ deferredType @ ''Request {\<newline>'' @
                    concat (map (\<lambda>field.
                              ''  '' @ fieldName field @
                              (if fieldType field \<noteq> [] \<and> last (fieldType field) = CHR ''!''
                               then '': '' else ''?: '') @
                              projectedType (types g) (fieldType field) @ '';\<newline>'')
                            (defFields (infoDefinition typeInfo))) @
                    ''}\<newline>\<newline>'') deferredInterfaces)) \<and>
      dataFieldLine field =
        (if fieldType field \<noteq> [] \<and> last (fieldType field) = CHR ''!''
         then ''  '' @ fieldName field @ '': '' @ translatedType (fieldType field) @ '';\<newline>''
         else ''  '' @ fieldName field @ ''?: Nullable<'' @ translatedType (fieldType field) @
              ''>;\<newline>'') \<and>
      convertGraphqlTypeToTs (fieldType field) = Inr (translatedType (fieldType field))"
proof -
  from generateTypescriptFile_text [of g] obtain ds where
    r: "generateTypescriptFile_resolve g = Inr (dataSectionsText g, ds)"
    and d: "set ds \<subseteq> fst ` set (types g)"
    and out: "generateTypescriptFile True g =
        Inr (dataSectionsText g @ concat (map (requestInterfaceText (types g)) ds))"
    by blast
  have q: "requestInterfaceText (types g) =
        (\<lambda>deferredType.
            case map_of (types g) deferredType of
              None \<Rightarrow> []
            | Some typeInfo \<Rightarrow>
                ''export interface '' @ deferredType @ ''Request {\<newline>'' @
                concat (map (\<lambda>field.
                          ''  '' @ fieldName field @
                          (if fieldType field \<noteq> [] \<and> last (fieldType field) = CHR ''!''
                           then '': '' else ''?: '') @
                          projectedType (types g) (fieldType field) @ '';\<newline>'')
                        (defFields (infoDefinition typeInfo))) @
                ''}\<newline>\<newline>'')"
    by (rule ext) (simp only: requestInterfaceText_def requestFieldLine_text)
  have t: "(\<lambda>(key, typeInfo). typeInterfaceText typeInfo) =
        (\<lambda>(key, typeInfo).
                (if defKind (infoDefinition typeInfo) = Object \<or>
                    defKind (infoDefinition typeInfo) = Interface
                 then ''export interface '' @ infoName typeInfo @ '' {\<newline>'' else []) @
                concat (map dataFieldLine (defFields (infoDefinition typeInfo))) @
                ''}\<newline>\<newline>'')"
    by (rule ext) (simp add: typeInterfaceText_def split: prod.splits)
  from out have "generateTypescriptFile True g =
        Inr (''/*\<newline>'' @
             '' * -------------------------------------------------------\<newline>'' @
             '' * THIS FILE WAS AUTOMATICALLY GENERATED (DO NOT MODIFY)\<newline>'' @
             '' * -------------------------------------------------------\<newline>'' @
             '' */\<newline>\<newline>'' @
             ''/* tslint:disable */\<newline>'' @
             ''/* eslint-disable */\<newline>\<newline>'' @
             ''type Nullable<T> = T | null;\<newline>\<newline>'' @
             concat (map (\<lambda>(key, enum).
                ''export enum '' @ defName enum @ '' {\<newline>'' @
                concat (map (\<lambda>v. ''  '' @ v @ '' = '' @ [CHR 0x27] @ v @ [CHR 0x27] @
                                  '',\<newline>'')
                          (defEnumValues enum)) @
                ''}\<newline>\<newline>'') (enums g)) @
             concat (map (\<lambda>(key, typeInfo).
                (if defKind (infoDefinition typeInfo) = Object \<or>
                    defKind (infoDefinition typeInfo) = Interface
                 then ''export interface '' @ infoName typeInfo @ '' {\<newline>'' else []) @
                concat (map dataFieldLine (defFields (infoDefinition typeInfo))) @
                ''}\<newline>\<newline>'') (types g)) @
             (if queries g = [] then []
              else ''export interface Query {\<newline>'' @
                   concat (map (\<lambda>(key, field). dataFieldLine field) (queries g)) @
                   ''}\<newline>\<newline>'') @
             (if mutations g = [] then []
              else ''export interface Mutation {\<newline>'' @
                   concat (map (\<lambda>(key, field). dataFieldLine field) (mutations g)) @
                   ''}\<newline>\<newline>'') @
             concat (map (\<lambda>deferredType.
                case map_of (types g) deferredType of
                  None \<Rightarrow> []
                | Some typeInfo \<Rightarrow>
                    ''export interface '' @ deferredType @ ''Request {\<newline>'' @
                    concat (map (\<lambda>field.
                              ''  '' @ fieldName field @
                              (if fieldType field \<noteq> [] \<and> last (fieldType field) = CHR ''!''
                               then '': '' else ''?: '') @
                              projectedType (types g) (fieldType field) @ '';\<newline>'')
                            (defFields (infoDefinition typeInfo))) @
                    ''}\<newline>\<newline>'') ds))"
    unfolding q dataSectionsText_def t by simp
  with r d show ?thesis
    using dataFieldLine_def [of field] convertGraphqlTypeToTs_translatedType [of "fieldType field"]
    by blast
qed

end
